theory Spec2Isabelle
  imports Main "HOL-Library.Word" "HOL-Library.AList"
begin

unbundle bit_operations_syntax

section \<open>Errors\<close>

text \<open>
  What a call can throw, or an \<open>async\<close> function reject with. \<open>RequestError\<close> is the
  error event of the HTTP request (a transport failure); \<open>OtherError\<close> carries the name
  of any other error. \<open>NotEvaluated\<close> is not a JavaScript error: it marks an input on
  which this development does not follow the runtime (a text outside the fragment of
  JavaScript evaluated by \<open>js_eval\<close>, a number beyond the range in which \<open>parseInt\<close> is
  determined).
\<close>

datatype js_error =
    SyntaxError
  | TypeError
  | RequestError string
  | OtherError string
  | NotEvaluated

type_synonym 'a result = "js_error + 'a"

section \<open>Hex and base64 codec utilities (mpc-client.ts)\<close>

text \<open>
  The hex texts the client handles and produces are ASCII: they are modelled as
  \<^typ>\<open>string\<close>, one \<^typ>\<open>char\<close> per code unit. The input of the base64 decoder may be any
  JavaScript string: it is a list of 16-bit code units.
\<close>

subsection \<open>The string primitives the client uses\<close>

text \<open>\<^verbatim>\<open>s.startsWith(p)\<close>: whether \<open>p\<close> is found at position 0 of \<open>s\<close>.\<close>

definition startsWith :: "string \<Rightarrow> string \<Rightarrow> bool" where
  "startsWith s p = (take (length p) s = p)"

text \<open>\<^verbatim>\<open>s.substring(n)\<close>: the code units from index \<open>n\<close> on (empty when \<open>n\<close> is past the end).\<close>

definition substring :: "string \<Rightarrow> nat \<Rightarrow> string" where
  "substring s n = drop n s"

text \<open>
  \<^verbatim>\<open>s.replace(/^0+/, '')\<close>: the pattern matches the longest run of \<open>0\<close> digits at the
  start of the string, and only if there is at least one; the match is replaced by nothing.
\<close>

definition replace_leading_zeros :: "string \<Rightarrow> string" where
  "replace_leading_zeros s = dropWhile (\<lambda>c. c = CHR ''0'') s"

subsection \<open>removeHexLeadingZero\<close>

definition removeHexLeadingZero :: "string \<Rightarrow> bool \<Rightarrow> string" where
  "removeHexLeadingZero hex keepOneZero =
     (let toHex = (if startsWith hex ''0x'' then substring hex 2 else hex);
          toHex = replace_leading_zeros toHex;
          toHex = (if length toHex = 0 \<and> keepOneZero then ''0'' else toHex);
          toHex = (if startsWith hex ''0x'' then ''0x'' @ toHex else toHex)
      in toHex)"

subsection \<open>Buffers: base64 decoding and hex encoding\<close>

text \<open>
  \<open>Buffer.from(s, 'base64')\<close> and \<open>buf.toString('hex')\<close> belong to the Node.js runtime.
  They are modelled after the runtime's decoder. Each code unit of the string is read
  by its low byte. A byte that is not in the base64 alphabet is skipped, the URL-safe
  characters \<open>-\<close> and \<open>_\<close> are accepted for \<open>+\<close> and \<open>/\<close>, decoding stops at the first
  \<open>=\<close>, each further six-bit value completes a byte with the bits left over from the
  one before, and a single left-over six-bit value at the end gives no byte. A buffer
  is a list of bytes.
\<close>

type_synonym byte = "8 word"

type_synonym code_unit = "16 word"

text \<open>The JavaScript string that has the characters of an ASCII text.\<close>

definition code_units :: "string \<Rightarrow> code_unit list" where
  "code_units s = map (\<lambda>c. word_of_nat (of_char c)) s"

definition low_byte :: "code_unit \<Rightarrow> nat" where
  "low_byte u = unat u mod 256"

definition unbase64 :: "nat \<Rightarrow> nat option" where
  "unbase64 n =
     (if 65 \<le> n \<and> n \<le> 90 then Some (n - 65)
      else if 97 \<le> n \<and> n \<le> 122 then Some (n - 71)
      else if 48 \<le> n \<and> n \<le> 57 then Some (n + 4)
      else if n = 43 \<or> n = 45 then Some 62
      else if n = 47 \<or> n = 95 then Some 63
      else None)"

fun base64_values :: "code_unit list \<Rightarrow> nat list" where
  "base64_values [] = []"
| "base64_values (u # us) =
     (if low_byte u = 61 then []
      else case unbase64 (low_byte u) of
             None \<Rightarrow> base64_values us
           | Some v \<Rightarrow> v # base64_values us)"

definition base64_byte1 :: "nat \<Rightarrow> nat \<Rightarrow> byte" where
  "base64_byte1 a b = word_of_nat (a * 4 + b div 16)"

definition base64_byte2 :: "nat \<Rightarrow> nat \<Rightarrow> byte" where
  "base64_byte2 b c = word_of_nat ((b mod 16) * 16 + c div 4)"

definition base64_byte3 :: "nat \<Rightarrow> nat \<Rightarrow> byte" where
  "base64_byte3 c d = word_of_nat ((c mod 4) * 64 + d)"

fun base64_bytes :: "nat list \<Rightarrow> byte list" where
  "base64_bytes (a # b # c # d # vs) =
     base64_byte1 a b # base64_byte2 b c # base64_byte3 c d # base64_bytes vs"
| "base64_bytes [a, b, c] = [base64_byte1 a b, base64_byte2 b c]"
| "base64_bytes [a, b] = [base64_byte1 a b]"
| "base64_bytes [a] = []"
| "base64_bytes [] = []"

definition Buffer_from_base64 :: "code_unit list \<Rightarrow> byte list" where
  "Buffer_from_base64 s = base64_bytes (base64_values s)"

definition hex_digit :: "nat \<Rightarrow> char" where
  "hex_digit n = ''0123456789abcdef'' ! n"

definition Buffer_toString_hex :: "byte list \<Rightarrow> string" where
  "Buffer_toString_hex bs =
     concat (map (\<lambda>b. [hex_digit (unat b div 16), hex_digit (unat b mod 16)]) bs)"

subsection \<open>base64ToHex\<close>

text \<open>
  The runtime has a maximum string length (\<open>buffer.constants.MAX_STRING_LENGTH\<close>); it is
  a parameter. \<open>toString('hex')\<close> throws when its result, two digits for each byte, would
  be longer, and so does the concatenation with \<open>0x\<close>.
\<close>

definition base64ToHex :: "nat \<Rightarrow> code_unit list \<Rightarrow> string result" where
  "base64ToHex max_string_length base64String =
     (let binaryData = Buffer_from_base64 base64String in
      if max_string_length < 2 * length binaryData
      then Inl (OtherError ''ERR_STRING_TOO_LONG'')
      else if max_string_length < 2 + 2 * length binaryData
      then Inl (OtherError ''RangeError: Invalid string length'')
      else Inr (''0x'' @ Buffer_toString_hex binaryData))"

text \<open>The maximum string length of V8 on 64-bit builds, \<open>2^29 - 24\<close>, for closed examples.\<close>

definition v8_max_string_length :: nat where
  "v8_max_string_length = 536870888"

subsection \<open>Standard base64 and lowercase hexadecimal, as the specification names them\<close>

text \<open>
  Standard base64 (RFC 4648, section 4, with padding): three bytes give four characters
  of the alphabet; a final group of one or two bytes gives two or three characters and
  is padded with \<open>=\<close> to four. The alphabet is \<open>A\<close> to \<open>Z\<close>, \<open>a\<close> to \<open>z\<close>, \<open>0\<close> to \<open>9\<close>, \<open>+\<close>
  and \<open>/\<close>, by character code.
\<close>

definition base64_alphabet :: string where
  "base64_alphabet =
     map char_of ([65..<91] @ [97..<123] @ [48..<58] :: nat list) @ ''+/''"

definition base64_char :: "nat \<Rightarrow> char" where
  "base64_char v = base64_alphabet ! v"

fun base64_encode :: "byte list \<Rightarrow> string" where
  "base64_encode (x # y # z # bs) =
     base64_char (unat x div 4)
       # base64_char ((unat x mod 4) * 16 + unat y div 16)
       # base64_char ((unat y mod 16) * 4 + unat z div 64)
       # base64_char (unat z mod 64)
       # base64_encode bs"
| "base64_encode [x, y] =
     [base64_char (unat x div 4),
      base64_char ((unat x mod 4) * 16 + unat y div 16),
      base64_char ((unat y mod 16) * 4),
      CHR ''='']"
| "base64_encode [x] =
     [base64_char (unat x div 4), base64_char ((unat x mod 4) * 16), CHR ''='', CHR ''='']"
| "base64_encode [] = []"

text \<open>
  The bytes of the decoder's alphabet: the standard alphabet and the two URL-safe
  characters.
\<close>

definition base64_codes :: "nat set" where
  "base64_codes = of_char ` set (base64_alphabet @ ''-_'')"

text \<open>
  Lowercase hexadecimal: a text is the encoding of a byte sequence when it reads back
  as the sequence, two digits for a byte, the high four bits first, with the digits
  \<open>0\<close> to \<open>9\<close> and \<open>a\<close> to \<open>f\<close>.
\<close>

definition hex_value :: "char \<Rightarrow> nat option" where
  "hex_value c =
     (let n = (of_char c :: nat) in
      if 48 \<le> n \<and> n \<le> 57 then Some (n - 48)
      else if 97 \<le> n \<and> n \<le> 102 then Some (n - 87)
      else None)"

fun hex_decode :: "string \<Rightarrow> byte list option" where
  "hex_decode [] = Some []"
| "hex_decode [c] = None"
| "hex_decode (c # d # cs) =
     (case (hex_value c, hex_value d, hex_decode cs) of
        (Some h, Some l, Some bs) \<Rightarrow> Some (word_of_nat (16 * h + l) # bs)
      | _ \<Rightarrow> None)"

definition is_lower_hex :: "char \<Rightarrow> bool" where
  "is_lower_hex c = (c \<in> set ''0123456789abcdef'')"

section \<open>JavaScript values and the evaluation of response bodies\<close>

text \<open>
  The MPC client turns a response body into a value with \<open>eval('(' + resp + ')')\<close> and
  then reads properties of the value and tests them for truthiness. A value is
  \<open>undefined\<close>, \<open>null\<close>, a boolean, a number (an integer here), a string, an array or an
  object. An object is given by what reading each of its properties gives: the value
  of a data property, or the outcome of an accessor, which may throw (the same outcome
  at every read). Each key is listed once.
\<close>

datatype js_value =
    JUndefined
  | JNull
  | JBool bool
  | JNum int
  | JStr string
  | JArr "js_value list"
  | JObj "(string \<times> (js_error + js_value)) list"

text \<open>\<open>ToBoolean\<close>: the test \<open>if (v)\<close>, \<open>!v\<close> and \<open>a && b\<close> apply.\<close>

fun truthy :: "js_value \<Rightarrow> bool" where
  "truthy JUndefined = False"
| "truthy JNull = False"
| "truthy (JBool b) = b"
| "truthy (JNum n) = (n \<noteq> 0)"
| "truthy (JStr s) = (s \<noteq> [])"
| "truthy (JArr vs) = True"
| "truthy (JObj ps) = True"

text \<open>
  The property read \<open>v.name\<close>. On \<open>undefined\<close> and \<open>null\<close> it throws a \<open>TypeError\<close>.
  On an object it gives what the property gives, or \<open>undefined\<close>. On booleans, numbers,
  strings and arrays, and for a property the object does not list, the lookup goes to
  the built-in prototypes; the client reads only \<open>result\<close>, \<open>error\<close>, \<open>mpc_address\<close> and
  \<open>signed_tx\<close>, which no built-in prototype defines, so the answer is \<open>undefined\<close>.
\<close>

fun own_property :: "js_value \<Rightarrow> string \<Rightarrow> js_value result" where
  "own_property (JObj ps) name =
     (case map_of ps name of None \<Rightarrow> Inr JUndefined | Some outcome \<Rightarrow> outcome)"
| "own_property v name = Inr JUndefined"

definition get_property :: "js_value \<Rightarrow> string \<Rightarrow> js_value result" where
  "get_property v name =
     (if v = JUndefined \<or> v = JNull then Inl TypeError else own_property v name)"

text \<open>
  Plain data: a value with data properties only, all the way down. Every value of a
  JSON text is plain data. \<open>property_value\<close> is the value of a data property, and
  \<open>undefined\<close> where there is none.
\<close>

fun plain :: "js_value \<Rightarrow> bool" where
  "plain (JArr vs) = (\<forall>v \<in> set vs. plain v)"
| "plain (JObj ps) =
     (\<forall>p \<in> set ps. case snd p of Inl error \<Rightarrow> False | Inr v \<Rightarrow> plain v)"
| "plain v = True"

definition property_value :: "js_value \<Rightarrow> string \<Rightarrow> js_value" where
  "property_value v name = (case own_property v name of Inl error \<Rightarrow> JUndefined | Inr x \<Rightarrow> x)"

subsection \<open>A fragment of \<open>eval\<close>: literal expressions\<close>

text \<open>
  \<open>eval\<close> is a built-in of the JavaScript runtime. The client operations below take it
  as a parameter, so what is proved of them for every evaluator holds of the real one.
  For closed examples, \<open>js_eval\<close> evaluates the fragment of JavaScript made of literal
  expressions: \<open>null\<close>, \<open>true\<close>, \<open>false\<close>, decimal integers below \<open>2^53\<close>, strings in
  double or single quotes without escapes, array literals, object literals whose keys
  are strings or identifiers, and parentheses. It answers
  \<^item> the value, for a text of the fragment;
  \<^item> \<open>SyntaxError\<close>, for a text made of the fragment's tokens whose brackets do not
    match, or that ends inside a string: no JavaScript program has such a text;
  \<^item> \<open>NotEvaluated\<close> otherwise.
\<close>

datatype token =
    TLParen | TRParen | TLBrack | TRBrack | TLBrace | TRBrace | TComma | TColon
  | TString string
  | TNumber nat
  | TName string

definition is_space :: "char \<Rightarrow> bool" where
  "is_space c = (c = CHR '' '' \<or> c = CHR 0x09 \<or> c = CHR 0x0A \<or> c = CHR 0x0D)"

definition is_digit :: "char \<Rightarrow> bool" where
  "is_digit c = (48 \<le> (of_char c :: nat) \<and> (of_char c :: nat) \<le> 57)"

definition is_name_start :: "char \<Rightarrow> bool" where
  "is_name_start c =
     (let n = (of_char c :: nat)
      in (65 \<le> n \<and> n \<le> 90) \<or> (97 \<le> n \<and> n \<le> 122) \<or> c = CHR ''_'' \<or> c = CHR ''$'')"

definition is_name_char :: "char \<Rightarrow> bool" where
  "is_name_char c = (is_name_start c \<or> is_digit c)"

definition is_quote :: "char \<Rightarrow> bool" where
  "is_quote c = (c = CHR 0x22 \<or> c = CHR 0x27)"

definition punctuation :: "char \<Rightarrow> token option" where
  "punctuation c =
     (if c = CHR ''('' then Some TLParen else if c = CHR '')'' then Some TRParen
      else if c = CHR ''['' then Some TLBrack else if c = CHR '']'' then Some TRBrack
      else if c = CHR ''{'' then Some TLBrace else if c = CHR ''}'' then Some TRBrace
      else if c = CHR '','' then Some TComma else if c = CHR '':'' then Some TColon
      else None)"

definition digits_value :: "string \<Rightarrow> nat" where
  "digits_value ds = foldl (\<lambda>n d. 10 * n + (of_char d - 48)) 0 ds"

text \<open>
  A run of digits is a number of the fragment unless it has a leading zero (an octal
  literal in JavaScript) or is too large to be an exact JavaScript number.
\<close>

definition number_token :: "string \<Rightarrow> token option" where
  "number_token ds =
     (if 1 < length ds \<and> take 1 ds = ''0'' then None
      else if digits_value ds < 2 ^ 53 then Some (TNumber (digits_value ds))
      else None)"

datatype lex_state = Start | InString char string | InNumber string | InName string

text \<open>
  One character read between tokens, and one character read in any state: the tokens
  completed by it and the next state, or \<open>None\<close> when the text leaves the fragment
  (an escape or a line break in a string, a character no token of the fragment has,
  a number followed by a letter or a dot).
\<close>

definition start_step :: "char \<Rightarrow> (token list \<times> lex_state) option" where
  "start_step c =
     (if is_space c then Some ([], Start)
      else if is_quote c then Some ([], InString c [])
      else if is_digit c then Some ([], InNumber [c])
      else if is_name_start c then Some ([], InName [c])
      else case punctuation c of None \<Rightarrow> None | Some t \<Rightarrow> Some ([t], Start))"

fun lex_step :: "lex_state \<Rightarrow> char \<Rightarrow> (token list \<times> lex_state) option" where
  "lex_step Start c = start_step c"
| "lex_step (InString q acc) c =
     (if c = q then Some ([TString (rev acc)], Start)
      else if c = CHR 0x5C \<or> c = CHR 0x0A \<or> c = CHR 0x0D then None
      else Some ([], InString q (c # acc)))"
| "lex_step (InNumber acc) c =
     (if is_digit c then Some ([], InNumber (c # acc))
      else if is_name_start c \<or> c = CHR ''.'' then None
      else case (number_token (rev acc), start_step c) of
             (Some t, Some (ts, st)) \<Rightarrow> Some (t # ts, st)
           | _ \<Rightarrow> None)"
| "lex_step (InName acc) c =
     (if is_name_char c then Some ([], InName (c # acc))
      else case start_step c of
             Some (ts, st) \<Rightarrow> Some (TName (rev acc) # ts, st)
           | None \<Rightarrow> None)"

datatype lex_result = Tokens "token list" | UnterminatedString | NotLexed

fun lex :: "lex_state \<Rightarrow> string \<Rightarrow> lex_result" where
  "lex Start [] = Tokens []"
| "lex (InString q acc) [] = UnterminatedString"
| "lex (InNumber acc) [] =
     (case number_token (rev acc) of None \<Rightarrow> NotLexed | Some t \<Rightarrow> Tokens [t])"
| "lex (InName acc) [] = Tokens [TName (rev acc)]"
| "lex st (c # cs) =
     (case lex_step st c of
        None \<Rightarrow> NotLexed
      | Some (ts, st') \<Rightarrow>
          (case lex st' cs of
             Tokens more \<Rightarrow> Tokens (ts @ more)
           | UnterminatedString \<Rightarrow> UnterminatedString
           | NotLexed \<Rightarrow> NotLexed))"

text \<open>Whether every closing bracket matches the innermost open one, and none stays open.\<close>

definition closer :: "token \<Rightarrow> token option" where
  "closer t =
     (case t of TLParen \<Rightarrow> Some TRParen | TLBrack \<Rightarrow> Some TRBrack
      | TLBrace \<Rightarrow> Some TRBrace | _ \<Rightarrow> None)"

definition is_closer :: "token \<Rightarrow> bool" where
  "is_closer t = (t = TRParen \<or> t = TRBrack \<or> t = TRBrace)"

fun balanced :: "token list \<Rightarrow> token list \<Rightarrow> bool" where
  "balanced opened [] = (opened = [])"
| "balanced opened (t # ts) =
     (case closer t of
        Some c \<Rightarrow> balanced (c # opened) ts
      | None \<Rightarrow>
          if is_closer t
          then (case opened of [] \<Rightarrow> False | c # rest \<Rightarrow> c = t \<and> balanced rest ts)
          else balanced opened ts)"

text \<open>
  The literal expressions, read by a machine with a stack of the brackets that are
  open: a parenthesis, an array with the elements read so far (last first), an object
  waiting for a key, or an object waiting for the value of a key. A key given twice
  keeps its first place and takes the later value. The key \<open>__proto__\<close> sets the
  prototype in JavaScript and is left out of the fragment.
\<close>

datatype frame =
    FParen
  | FArray "js_value list"
  | FObject "(string \<times> (js_error + js_value)) list"
  | FMember "(string \<times> (js_error + js_value)) list" string

datatype mode = Value | ElemOrEnd | KeyOrEnd | Key | Colon | After js_value

definition literal_token :: "token \<Rightarrow> js_value option" where
  "literal_token t =
     (case t of
        TString s \<Rightarrow> Some (JStr s)
      | TNumber n \<Rightarrow> Some (JNum (int n))
      | TName n \<Rightarrow>
          if n = ''null'' then Some JNull
          else if n = ''true'' then Some (JBool True)
          else if n = ''false'' then Some (JBool False)
          else None
      | _ \<Rightarrow> None)"

definition key_token :: "token \<Rightarrow> string option" where
  "key_token t =
     (case t of
        TString k \<Rightarrow> if k = ''__proto__'' then None else Some k
      | TName k \<Rightarrow> if k = ''__proto__'' then None else Some k
      | _ \<Rightarrow> None)"

definition value_step :: "token \<Rightarrow> frame list \<Rightarrow> (mode \<times> frame list) option" where
  "value_step t st =
     (case t of
        TLParen \<Rightarrow> Some (Value, FParen # st)
      | TLBrack \<Rightarrow> Some (ElemOrEnd, FArray [] # st)
      | TLBrace \<Rightarrow> Some (KeyOrEnd, FObject [] # st)
      | _ \<Rightarrow> (case literal_token t of None \<Rightarrow> None | Some v \<Rightarrow> Some (After v, st)))"

definition key_step :: "token \<Rightarrow> frame list \<Rightarrow> (mode \<times> frame list) option" where
  "key_step t st =
     (case st of
        FObject ps # st' \<Rightarrow>
          (case key_token t of None \<Rightarrow> None | Some k \<Rightarrow> Some (Colon, FMember ps k # st'))
      | _ \<Rightarrow> None)"

definition after_step :: "js_value \<Rightarrow> token \<Rightarrow> frame list \<Rightarrow> (mode \<times> frame list) option" where
  "after_step v t st =
     (case st of
        FParen # st' \<Rightarrow> if t = TRParen then Some (After v, st') else None
      | FArray acc # st' \<Rightarrow>
          if t = TComma then Some (Value, FArray (v # acc) # st')
          else if t = TRBrack then Some (After (JArr (rev (v # acc))), st')
          else None
      | FMember ps k # st' \<Rightarrow>
          if t = TComma then Some (Key, FObject (AList.update k (Inr v) ps) # st')
          else if t = TRBrace then Some (After (JObj (AList.update k (Inr v) ps)), st')
          else None
      | _ \<Rightarrow> None)"

fun parse_step :: "mode \<Rightarrow> token \<Rightarrow> frame list \<Rightarrow> (mode \<times> frame list) option" where
  "parse_step Value t st = value_step t st"
| "parse_step ElemOrEnd t st =
     (if t = TRBrack
      then (case st of FArray acc # st' \<Rightarrow> Some (After (JArr (rev acc)), st') | _ \<Rightarrow> None)
      else value_step t st)"
| "parse_step KeyOrEnd t st =
     (if t = TRBrace
      then (case st of FObject ps # st' \<Rightarrow> Some (After (JObj ps), st') | _ \<Rightarrow> None)
      else key_step t st)"
| "parse_step Key t st = key_step t st"
| "parse_step Colon t st = (if t = TColon then Some (Value, st) else None)"
| "parse_step (After v) t st = after_step v t st"

fun parse :: "mode \<Rightarrow> frame list \<Rightarrow> token list \<Rightarrow> js_value option" where
  "parse m st [] = (case (m, st) of (After v, []) \<Rightarrow> Some v | _ \<Rightarrow> None)"
| "parse m st (t # ts) =
     (case parse_step m t st of None \<Rightarrow> None | Some (m', st') \<Rightarrow> parse m' st' ts)"

definition js_eval :: "string \<Rightarrow> js_value result" where
  "js_eval src =
     (case lex Start src of
        UnterminatedString \<Rightarrow> Inl SyntaxError
      | NotLexed \<Rightarrow> Inl NotEvaluated
      | Tokens ts \<Rightarrow>
          if \<not> balanced [] ts then Inl SyntaxError
          else (case parse Value [] ts of None \<Rightarrow> Inl NotEvaluated | Some v \<Rightarrow> Inr v))"

section \<open>The MPC signing client (mpc-client.ts)\<close>

text \<open>
  \<open>httpRequest\<close> settles with the response body, or rejects with the request's error
  event: its outcome is a \<open>string result\<close>. The three single-shot operations are
  \<open>async\<close> functions: an exception thrown in the body, or an awaited rejection, makes the
  returned promise reject, which is the \<open>Inl\<close> of the model. The evaluator \<open>ev\<close> is the
  runtime's \<open>eval\<close>. The base URL is taken to be a valid absolute URL, so that \<open>new URL\<close>
  returns; logging is left out.
\<close>

type_synonym evaluator = "string \<Rightarrow> js_value result"

definition getLatestMpc :: "evaluator \<Rightarrow> string result \<Rightarrow> js_value result" where
  "getLatestMpc ev http =
     (case http of
        Inl error \<Rightarrow> Inl error
      | Inr resp \<Rightarrow>
          if resp = [] then Inr JNull
          else (case ev (''('' @ resp @ '')'') of
             Inl error \<Rightarrow> Inl error
           | Inr obj \<Rightarrow>
               (case get_property obj ''result'' of
                  Inl error \<Rightarrow> Inl error
                | Inr r \<Rightarrow>
                    if \<not> truthy r then Inr JNull
                    else (case get_property r ''mpc_address'' of
                       Inl error \<Rightarrow> Inl error
                     | Inr a \<Rightarrow> if truthy a then Inr r else Inr JNull))))"

definition proposeMpcSign :: "evaluator \<Rightarrow> string result \<Rightarrow> js_value result" where
  "proposeMpcSign ev http =
     (case http of
        Inl error \<Rightarrow> Inl error
      | Inr resp \<Rightarrow>
          if resp = [] then Inr JNull
          else (case ev (''('' @ resp @ '')'') of
             Inl error \<Rightarrow> Inl error
           | Inr obj \<Rightarrow>
               (case get_property obj ''error'' of
                  Inl error \<Rightarrow> Inl error
                | Inr e \<Rightarrow> if truthy e then Inr JNull else Inr obj)))"

definition getMpcSign :: "evaluator \<Rightarrow> string result \<Rightarrow> js_value result" where
  "getMpcSign ev http =
     (case http of
        Inl error \<Rightarrow> Inl error
      | Inr resp \<Rightarrow>
          if resp = [] then Inr (JStr [])
          else (case ev (''('' @ resp @ '')'') of
             Inl error \<Rightarrow> Inl error
           | Inr obj \<Rightarrow>
               (case get_property obj ''error'' of
                  Inl error \<Rightarrow> Inl error
                | Inr e \<Rightarrow>
                    if truthy e then Inr (JStr [])
                    else (case get_property obj ''result'' of
                       Inl error \<Rightarrow> Inl error
                     | Inr r \<Rightarrow>
                         if \<not> truthy r then Inr (JStr [])
                         else (case get_property r ''signed_tx'' of
                            Inl error \<Rightarrow> Inl error
                          | Inr s \<Rightarrow> if truthy s then Inr s else Inr (JStr []))))))"

subsection \<open>getMpcSignWithTimeout\<close>

text \<open>
  Time is in milliseconds, as \<open>Date.now()\<close> reads it. \<open>setInterval(f, interval)\<close> runs
  \<open>f\<close> for the first time one delay after the call and then once every delay, until
  \<open>clearInterval\<close>; the runtime replaces a delay below 1 or above \<open>2^31 - 1\<close> by 1. The
  timer is taken to be exact: tick \<open>k\<close> (from 1) is at \<open>k\<close> delays after the call.

  The server is a list of polls, one for each tick in turn: what \<open>httpRequest\<close> settles
  with, and how long after the tick (the latency, of any length: the timer does not
  wait for the callback of a tick, so polls overlap when answers are slow).
\<close>

record poll =
  response :: "string result"
  latency :: nat

datatype settlement = Resolved js_value | Rejected js_error | Pending

record wait_run =
  outcome :: settlement
  polled_at :: "int list"
  settled_at :: "int option"

definition timer_delay :: "int \<Rightarrow> int" where
  "timer_delay interval = (if 1 \<le> interval \<and> interval \<le> 2147483647 then interval else 1)"

text \<open>
  The callback of a tick, from the answer of \<open>getMpcSign\<close> on: with the clock at
  \<open>currentTime\<close> it clears the interval and rejects (an error), clears the interval and
  resolves (a signature, or the deadline passed), or does nothing.
\<close>

definition callback_settles ::
  "int \<Rightarrow> int \<Rightarrow> int \<Rightarrow> js_value result \<Rightarrow> settlement option" where
  "callback_settles startTime maxTimeout currentTime answer =
     (case answer of
        Inl error \<Rightarrow> Some (Rejected error)
      | Inr signedTx \<Rightarrow>
          if truthy signedTx \<or> currentTime - startTime \<ge> maxTimeout
          then Some (Resolved signedTx)
          else None)"

text \<open>
  A promise keeps its first settlement, and a cleared interval ticks no more. So of
  the answers in flight only the one that settles first matters: an answer that makes
  the callback do nothing changes nothing. The order of two events in the same
  millisecond is not determined: \<open>timer_first\<close> says whether a tick goes before an
  answer, \<open>later_answer_first\<close> whether the answer of the later poll goes before that of
  the earlier one.
\<close>

record tie_order =
  timer_first :: bool
  later_answer_first :: bool

definition first_to_settle ::
  "tie_order \<Rightarrow> (int \<times> settlement) option \<Rightarrow> int \<times> settlement \<Rightarrow> (int \<times> settlement) option"
  where
  "first_to_settle ties best new =
     (case best of
        None \<Rightarrow> Some new
      | Some old \<Rightarrow>
          if fst new < fst old \<or> (fst new = fst old \<and> later_answer_first ties)
          then Some new else Some old)"

definition settled_before ::
  "tie_order \<Rightarrow> (int \<times> settlement) option \<Rightarrow> int \<Rightarrow> (int \<times> settlement) option" where
  "settled_before ties best tick =
     (case best of
        None \<Rightarrow> None
      | Some (c, s) \<Rightarrow> if c < tick \<or> (c = tick \<and> \<not> timer_first ties) then Some (c, s) else None)"

text \<open>
  The ticks in turn. At a tick, if an answer in flight has settled the promise, the
  interval was cleared then and the run is over. Otherwise the tick polls: the poll is
  answered after its latency, and its callback may settle the promise then. When the
  list of polls ends before the promise is known to settle, the run is \<open>Pending\<close>.
\<close>

fun interval_ticks ::
  "evaluator \<Rightarrow> tie_order \<Rightarrow> int \<Rightarrow> int \<Rightarrow> int \<Rightarrow> int \<Rightarrow> (int \<times> settlement) option
     \<Rightarrow> int list \<Rightarrow> poll list \<Rightarrow> wait_run" where
  "interval_ticks ev ties startTime maxTimeout delay tick best fired [] =
     (case settled_before ties best tick of
        Some (c, s) \<Rightarrow> \<lparr>outcome = s, polled_at = fired, settled_at = Some c\<rparr>
      | None \<Rightarrow> \<lparr>outcome = Pending, polled_at = fired, settled_at = None\<rparr>)"
| "interval_ticks ev ties startTime maxTimeout delay tick best fired (p # ps) =
     (case settled_before ties best tick of
        Some (c, s) \<Rightarrow> \<lparr>outcome = s, polled_at = fired, settled_at = Some c\<rparr>
      | None \<Rightarrow>
          (let currentTime = tick + int (latency p);
               best' = (case callback_settles startTime maxTimeout currentTime
                               (getMpcSign ev (response p)) of
                          None \<Rightarrow> best
                        | Some s \<Rightarrow> first_to_settle ties best (currentTime, s))
           in interval_ticks ev ties startTime maxTimeout delay (tick + delay) best'
                (fired @ [tick]) ps))"

definition getMpcSignWithTimeout ::
  "evaluator \<Rightarrow> tie_order \<Rightarrow> int \<Rightarrow> int \<Rightarrow> int \<Rightarrow> poll list \<Rightarrow> wait_run" where
  "getMpcSignWithTimeout ev ties now maxTimeout interval polls =
     (let startTime = now
      in interval_ticks ev ties startTime maxTimeout (timer_delay interval)
           (now + timer_delay interval) None [] polls)"

text \<open>When poll \<open>k\<close> (from 0) is answered: its tick and its latency.\<close>

definition answered_at :: "int \<Rightarrow> int \<Rightarrow> poll list \<Rightarrow> nat \<Rightarrow> int" where
  "answered_at now interval polls k =
     now + (int k + 1) * timer_delay interval + int (latency (polls ! k))"

section \<open>Transaction submission (tx-submission.ts)\<close>

text \<open>
  A populated transaction: every field is optional. The code passes the transaction on
  and writes one field, \<open>gasPrice\<close>.
\<close>

record populated_tx =
  tx_to :: "string option"
  tx_data :: "string option"
  tx_value :: "int option"
  tx_nonce :: "int option"
  tx_gasLimit :: "int option"
  gasPrice :: "int option"

record tx_response =
  hash :: string

record receipt =
  transactionHash :: string
  confirmations :: nat

record resubmission_config =
  resubmissionTimeout :: int
  minGasPriceInGwei :: int
  maxGasPriceInGwei :: int
  gasRetryIncrement :: int

text \<open>
  The signer and its provider are collaborators: what each call settles with is given.
  \<open>getGasPrice\<close> settles with the network's gas price in wei.
\<close>

record signer =
  getGasPrice :: "nat result"
  sendTransaction :: "populated_tx \<Rightarrow> tx_response result"
  provider_sendTransaction :: "string \<Rightarrow> tx_response result"
  provider_waitForTransaction :: "string \<Rightarrow> nat \<Rightarrow> receipt result"

text \<open>The hooks are the caller's callbacks: each returns (\<open>None\<close>) or throws.\<close>

record tx_submission_hooks =
  beforeSendTransaction :: "populated_tx \<Rightarrow> js_error option"
  onTransactionResponse :: "tx_response \<Rightarrow> js_error option"

text \<open>
  What a submission does, in order: the calls it makes to the hooks, the signer and
  the provider, with their arguments. A run is the calls made and the result.
\<close>

datatype call =
    GetGasPrice
  | BeforeSendTransaction populated_tx
  | SignerSendTransaction populated_tx
  | ProviderSendTransaction string
  | OnTransactionResponse tx_response
  | WaitForTransaction string nat

type_synonym 'a run = "call list \<times> 'a result"

text \<open>Make a call; go on with its value, or stop with its error.\<close>

definition calling :: "call \<Rightarrow> 'a result \<Rightarrow> ('a \<Rightarrow> 'b run) \<Rightarrow> 'b run" where
  "calling c r k =
     (case r of
        Inl error \<Rightarrow> ([c], Inl error)
      | Inr x \<Rightarrow> (case k x of (calls, res) \<Rightarrow> (c # calls, res)))"

definition hook_result :: "js_error option \<Rightarrow> unit result" where
  "hook_result h = (case h of None \<Rightarrow> Inr () | Some error \<Rightarrow> Inl error)"

text \<open>
  A JavaScript number is a double: an integer below \<open>2^53\<close> is a number as it is, and a
  larger one is rounded to 53 significant bits, to the nearest, a tie to the even one.
  \<open>excess_bits n\<close> is the count of bits of \<open>n\<close> beyond 53.
\<close>

fun excess_bits :: "nat \<Rightarrow> nat" where
  "excess_bits n = (if n < 9007199254740992 then 0 else Suc (excess_bits (n div 2)))"

declare excess_bits.simps [simp del]

definition to_number :: "nat \<Rightarrow> nat" where
  "to_number n =
     (let e = excess_bits n; q = n div 2 ^ e; r = n mod 2 ^ e
      in if 2 ^ e < 2 * r \<or> (2 * r = 2 ^ e \<and> odd q) then (q + 1) * 2 ^ e else q * 2 ^ e)"

text \<open>
  \<open>getGasPriceInGwei\<close>: \<open>formatUnits\<close> writes the gas price in gwei as a decimal text,
  the whole gwei before the point, and \<open>parseInt\<close> reads the digits before the point as
  a number. \<open>parseInt\<close> is determined up to 20 significant digits (beyond, the language
  lets the runtime replace digits by zeros): a longer text is not evaluated here.
\<close>

definition getGasPriceInGwei :: "signer \<Rightarrow> int result" where
  "getGasPriceInGwei s =
     (case getGasPrice s of
        Inl error \<Rightarrow> Inl error
      | Inr wei \<Rightarrow>
          (let gwei = wei div 1000000000
           in if gwei < 100000000000000000000 then Inr (int (to_number gwei))
              else Inl NotEvaluated))"

text \<open>
  The escalation engines (\<open>ynatm.send\<close> of the ynatm package, \<open>sendAfterSign\<close> of
  \<open>YnatmAsync\<close>) are not part of these sources: they are parameters, with the options
  the code hands them. \<open>toGwei\<close>, their conversion from gwei to wei, is a parameter too.
\<close>

datatype scaling = LINEAR int

record 'r send_options =
  sendTransactionFunction :: "int \<Rightarrow> 'r run"
  minGasPrice :: int
  maxGasPrice :: int
  gasPriceScalingFunction :: scaling
  delay :: int

record ('f, 'r) send_after_sign_options =
  sendSignedTransactionFunction :: "string \<Rightarrow> 'r run"
  signFunction :: 'f
  sas_minGasPrice :: int
  sas_maxGasPrice :: int
  sas_gasPriceScalingFunction :: scaling
  sas_delay :: int

subsection \<open>submitTransactionWithYNATM\<close>

definition sendTxAndWaitForReceipt ::
  "populated_tx \<Rightarrow> signer \<Rightarrow> nat \<Rightarrow> tx_submission_hooks \<Rightarrow> int \<Rightarrow> receipt run" where
  "sendTxAndWaitForReceipt tx s numConfirmations hooks gasPrice_arg =
     (let fullTx = tx\<lparr>gasPrice := Some gasPrice_arg\<rparr> in
      calling (BeforeSendTransaction fullTx) (hook_result (beforeSendTransaction hooks fullTx))
        (\<lambda>_. calling (SignerSendTransaction fullTx) (sendTransaction s fullTx)
        (\<lambda>txResponse. calling (OnTransactionResponse txResponse)
                          (hook_result (onTransactionResponse hooks txResponse))
        (\<lambda>_. calling (WaitForTransaction (hash txResponse) numConfirmations)
                 (provider_waitForTransaction s (hash txResponse) numConfirmations)
        (\<lambda>r. ([], Inr r))))))"

definition ynatm_send_options ::
  "(int \<Rightarrow> int) \<Rightarrow> populated_tx \<Rightarrow> signer \<Rightarrow> resubmission_config \<Rightarrow> nat
     \<Rightarrow> tx_submission_hooks \<Rightarrow> int \<Rightarrow> receipt send_options" where
  "ynatm_send_options toGwei tx s config numConfirmations hooks minGasPrice_arg =
     \<lparr>sendTransactionFunction = sendTxAndWaitForReceipt tx s numConfirmations hooks,
      minGasPrice = toGwei minGasPrice_arg,
      maxGasPrice = toGwei (maxGasPriceInGwei config),
      gasPriceScalingFunction = LINEAR (gasRetryIncrement config),
      delay = resubmissionTimeout config\<rparr>"

definition submitTransactionWithYNATM ::
  "(receipt send_options \<Rightarrow> 'a run) \<Rightarrow> (int \<Rightarrow> int) \<Rightarrow> populated_tx \<Rightarrow> signer
     \<Rightarrow> resubmission_config \<Rightarrow> nat \<Rightarrow> tx_submission_hooks \<Rightarrow> 'a run" where
  "submitTransactionWithYNATM ynatm_send toGwei tx s config numConfirmations hooks =
     calling GetGasPrice (getGasPriceInGwei s)
       (\<lambda>minGasPrice_arg.
          ynatm_send (ynatm_send_options toGwei tx s config numConfirmations hooks
                        minGasPrice_arg))"

subsection \<open>submitSignedTransactionWithYNATM\<close>

definition sendSignedTxAndWaitForReceipt ::
  "populated_tx \<Rightarrow> signer \<Rightarrow> nat \<Rightarrow> tx_submission_hooks \<Rightarrow> string \<Rightarrow> receipt run" where
  "sendSignedTxAndWaitForReceipt tx s numConfirmations hooks signedTx =
     calling (BeforeSendTransaction tx) (hook_result (beforeSendTransaction hooks tx))
       (\<lambda>_. calling (ProviderSendTransaction signedTx) (provider_sendTransaction s signedTx)
       (\<lambda>txResponse. calling (OnTransactionResponse txResponse)
                         (hook_result (onTransactionResponse hooks txResponse))
       (\<lambda>_. calling (WaitForTransaction (hash txResponse) numConfirmations)
                (provider_waitForTransaction s (hash txResponse) numConfirmations)
       (\<lambda>r. ([], Inr r)))))"

definition send_after_sign_options ::
  "(int \<Rightarrow> int) \<Rightarrow> populated_tx \<Rightarrow> 'f \<Rightarrow> signer \<Rightarrow> resubmission_config \<Rightarrow> nat
     \<Rightarrow> tx_submission_hooks \<Rightarrow> int \<Rightarrow> ('f, receipt) send_after_sign_options" where
  "send_after_sign_options toGwei tx sign s config numConfirmations hooks minGasPrice_arg =
     \<lparr>sendSignedTransactionFunction = sendSignedTxAndWaitForReceipt tx s numConfirmations hooks,
      signFunction = sign,
      sas_minGasPrice = toGwei minGasPrice_arg,
      sas_maxGasPrice = toGwei (maxGasPriceInGwei config),
      sas_gasPriceScalingFunction = LINEAR (gasRetryIncrement config),
      sas_delay = resubmissionTimeout config\<rparr>"

definition submitSignedTransactionWithYNATM ::
  "(('f, receipt) send_after_sign_options \<Rightarrow> 'a run) \<Rightarrow> (int \<Rightarrow> int) \<Rightarrow> populated_tx \<Rightarrow> 'f
     \<Rightarrow> signer \<Rightarrow> resubmission_config \<Rightarrow> nat \<Rightarrow> tx_submission_hooks \<Rightarrow> 'a run" where
  "submitSignedTransactionWithYNATM sendAfterSign toGwei tx sign s config numConfirmations hooks =
     calling GetGasPrice (getGasPriceInGwei s)
       (\<lambda>minGasPrice_arg.
          sendAfterSign (send_after_sign_options toGwei tx sign s config numConfirmations hooks
                           minGasPrice_arg))"

subsection \<open>YnatmTransactionSubmitter\<close>

record ynatm_transaction_submitter =
  submitter_signer :: signer
  ynatmConfig :: resubmission_config
  numConfirmations :: nat

text \<open>The hooks put in when the caller gives none: both return \<open>undefined\<close> and do nothing.\<close>

definition default_hooks :: tx_submission_hooks where
  "default_hooks =
     \<lparr>beforeSendTransaction = (\<lambda>_. None), onTransactionResponse = (\<lambda>_. None)\<rparr>"

definition submitTransaction ::
  "(receipt send_options \<Rightarrow> 'a run) \<Rightarrow> (int \<Rightarrow> int) \<Rightarrow> ynatm_transaction_submitter
     \<Rightarrow> populated_tx \<Rightarrow> tx_submission_hooks option \<Rightarrow> 'a run" where
  "submitTransaction ynatm_send toGwei this tx hooks =
     (let hooks' = (case hooks of None \<Rightarrow> default_hooks | Some h \<Rightarrow> h)
      in submitTransactionWithYNATM ynatm_send toGwei tx (submitter_signer this)
           (ynatmConfig this) (numConfirmations this) hooks')"

definition submitSignedTransaction ::
  "(('f, receipt) send_after_sign_options \<Rightarrow> 'a run) \<Rightarrow> (int \<Rightarrow> int)
     \<Rightarrow> ynatm_transaction_submitter \<Rightarrow> populated_tx \<Rightarrow> 'f \<Rightarrow> tx_submission_hooks option
     \<Rightarrow> 'a run" where
  "submitSignedTransaction sendAfterSign toGwei this tx sign hooks =
     (let hooks' = (case hooks of None \<Rightarrow> default_hooks | Some h \<Rightarrow> h)
      in submitSignedTransactionWithYNATM sendAfterSign toGwei tx sign (submitter_signer this)
           (ynatmConfig this) (numConfirmations this) hooks')"

text \<open>The conversion of the ynatm package, \<open>toGwei = x => x * 10^9\<close>, for closed examples.\<close>

definition ynatm_toGwei :: "int \<Rightarrow> int" where
  "ynatm_toGwei x = x * 1000000000"

subsection \<open>Examples\<close>

text \<open>
  A signer on a network whose gas price is 10 gwei, a configuration with a minimum
  of 50 gwei, a transaction, and two engines that do nothing but report the starting
  gas price they are given.
\<close>

definition example_signer :: signer where
  "example_signer =
     \<lparr>getGasPrice = Inr 10000000000,
      sendTransaction = (\<lambda>tx. Inr \<lparr>hash = ''0x01''\<rparr>),
      provider_sendTransaction = (\<lambda>signedTx. Inr \<lparr>hash = ''0x01''\<rparr>),
      provider_waitForTransaction =
        (\<lambda>h n. Inr \<lparr>transactionHash = h, confirmations = n\<rparr>)\<rparr>"

definition example_config :: resubmission_config where
  "example_config =
     \<lparr>resubmissionTimeout = 60000, minGasPriceInGwei = 50, maxGasPriceInGwei = 100,
      gasRetryIncrement = 5\<rparr>"

definition example_tx :: populated_tx where
  "example_tx =
     \<lparr>tx_to = Some ''0xdead'', tx_data = Some ''0x'', tx_value = None, tx_nonce = None,
      tx_gasLimit = None, gasPrice = None\<rparr>"

definition report_start :: "receipt send_options \<Rightarrow> int run" where
  "report_start options = ([], Inr (minGasPrice options))"

definition report_start_signed :: "(unit, receipt) send_after_sign_options \<Rightarrow> int run" where
  "report_start_signed options = ([], Inr (sas_minGasPrice options))"

section \<open>Properties of the codec\<close>

lemma replace_leading_zeros_run:
  assumes "\<not> startsWith t ''0''"
  shows "replace_leading_zeros (replicate n (CHR ''0'') @ t) = t"
proof (induction n)
  case 0
  from assms show ?case
    by (cases t) (simp_all add: replace_leading_zeros_def startsWith_def)
next
  case (Suc n)
  then show ?case by (simp add: replace_leading_zeros_def)
qed

lemma replace_leading_zeros_no_prefix:
  "\<not> startsWith (replace_leading_zeros s) ''0x''"
  by (induction s) (auto simp: startsWith_def replace_leading_zeros_def)

text \<open>
  C6. \<open>removeHexLeadingZero\<close> strips a \<open>0x\<close> prefix if present, trims all leading zero digits,
  keeps a single \<open>0\<close> when the trimmed text is empty and \<open>keepOneZero\<close> is set, and puts the
  \<open>0x\<close> prefix back exactly when the input had one. Every input is an optional \<open>0x\<close>,
  a run of \<open>n\<close> zeros and a rest \<open>t\<close> that does not start with a zero: the result is
  the prefix (if any) followed by \<open>t\<close>, or by a single \<open>0\<close> when \<open>t\<close> is empty and
  \<open>keepOneZero\<close> is set. The three values given by the specification follow.
\<close>

theorem removeHexLeadingZero_spec:
  "(\<not> startsWith t ''0'' \<longrightarrow>
      removeHexLeadingZero (''0x'' @ replicate n (CHR ''0'') @ t) k
        = ''0x'' @ (if t = [] \<and> k then ''0'' else t)
      \<and> (\<not> startsWith (replicate n (CHR ''0'') @ t) ''0x'' \<longrightarrow>
          removeHexLeadingZero (replicate n (CHR ''0'') @ t) k
            = (if t = [] \<and> k then ''0'' else t)))
   \<and> startsWith (removeHexLeadingZero hex k) ''0x'' = startsWith hex ''0x''
   \<and> removeHexLeadingZero ''0x00'' True = ''0x0''
   \<and> removeHexLeadingZero ''0x00'' False = ''0x''
   \<and> removeHexLeadingZero ''0x0a1'' False = ''0xa1''"
proof -
  have a: "removeHexLeadingZero (''0x'' @ replicate n (CHR ''0'') @ t) k
        = ''0x'' @ (if t = [] \<and> k then ''0'' else t)" if "\<not> startsWith t ''0''"
    using replace_leading_zeros_run [OF that, of n]
    by (simp add: removeHexLeadingZero_def startsWith_def substring_def Let_def)
  have b: "removeHexLeadingZero (replicate n (CHR ''0'') @ t) k
            = (if t = [] \<and> k then ''0'' else t)"
    if "\<not> startsWith t ''0''" "\<not> startsWith (replicate n (CHR ''0'') @ t) ''0x''"
    using replace_leading_zeros_run [OF that(1), of n] that(2)
    by (simp add: removeHexLeadingZero_def Let_def)
  have c: "startsWith (removeHexLeadingZero hex k) ''0x'' = startsWith hex ''0x''"
  proof (cases "startsWith hex ''0x''")
    case True
    then show ?thesis by (simp add: removeHexLeadingZero_def startsWith_def Let_def)
  next
    case False
    moreover have "\<not> startsWith ''0'' ''0x''" by (simp add: startsWith_def)
    ultimately show ?thesis
      using replace_leading_zeros_no_prefix [of hex]
      by (simp add: removeHexLeadingZero_def Let_def)
  qed
  have d: "removeHexLeadingZero ''0x00'' True = ''0x0''"
    "removeHexLeadingZero ''0x00'' False = ''0x''"
    "removeHexLeadingZero ''0x0a1'' False = ''0xa1''"
    by (simp_all add: removeHexLeadingZero_def startsWith_def substring_def replace_leading_zeros_def Let_def)
  show ?thesis using a b c d by blast
qed

theorem removeHexLeadingZero_spec_witness:
  "\<not> startsWith ''a1'' ''0'' \<and> \<not> startsWith (replicate 2 (CHR ''0'') @ ''a1'') ''0x''
   \<and> removeHexLeadingZero (''0x'' @ replicate 2 (CHR ''0'') @ ''a1'') False = ''0xa1''
   \<and> removeHexLeadingZero (replicate 2 (CHR ''0'') @ ''a1'') False = ''a1''"
  using removeHexLeadingZero_spec [of "''a1''" 2 False]
  by (simp add: startsWith_def numeral_2_eq_2)

subsection \<open>Decoding what the standard encoder produced\<close>

lemma base64_char_upper: "v < 26 \<Longrightarrow> base64_char v = char_of (65 + v)"
  by (auto simp add: base64_char_def base64_alphabet_def nth_append simp del: upt_rec_numeral)

lemma base64_char_lower: "26 \<le> v \<Longrightarrow> v < 52 \<Longrightarrow> base64_char v = char_of (71 + v)"
  by (auto simp add: base64_char_def base64_alphabet_def nth_append simp del: upt_rec_numeral)

lemma base64_char_digit: "52 \<le> v \<Longrightarrow> v < 62 \<Longrightarrow> base64_char v = char_of (v - 4)"
  by (auto simp add: base64_char_def base64_alphabet_def nth_append simp del: upt_rec_numeral)

lemma base64_char_plus: "base64_char 62 = CHR ''+''"
  by (auto simp add: base64_char_def base64_alphabet_def nth_append simp del: upt_rec_numeral)

lemma base64_char_slash: "base64_char 63 = CHR ''/''"
  by (auto simp add: base64_char_def base64_alphabet_def nth_append simp del: upt_rec_numeral)

lemma low_byte_code_unit: "low_byte (word_of_nat (of_char c)) = of_char c"
  by (simp add: low_byte_def unat_of_nat take_bit_eq_mod mod_mod_cancel)

lemma code_of_base64_char:
  "v < 64 \<Longrightarrow> unbase64 (of_char (base64_char v)) = Some v \<and> (of_char (base64_char v) :: nat) \<noteq> 61"
proof -
  assume v: "v < 64"
  consider "v < 26" | "26 \<le> v" "v < 52" | "52 \<le> v" "v < 62" | "v = 62" | "v = 63"
    using v by linarith
  then show ?thesis
  proof cases
    case 1
    then show ?thesis by (auto simp: base64_char_upper unbase64_def)
  next
    case 2
    then show ?thesis by (auto simp: base64_char_lower unbase64_def)
  next
    case 3
    then show ?thesis by (auto simp: base64_char_digit unbase64_def)
  next
    case 4
    then show ?thesis by (simp add: base64_char_plus unbase64_def)
  next
    case 5
    then show ?thesis by (simp add: base64_char_slash unbase64_def)
  qed
qed

lemma base64_values_char:
  "v < 64 \<Longrightarrow>
   base64_values (word_of_nat (of_char (base64_char v)) # us) = v # base64_values us"
  using code_of_base64_char [of v] by (simp add: low_byte_code_unit)

lemma base64_values_pad: "base64_values (61 # us) = []"
  by (simp add: low_byte_def)

lemma byte_bound: "unat (x :: byte) < 256"
  using unsigned_less [of x, where 'a = nat] by simp

lemma sextet_bounds:
  fixes x y z :: byte
  shows "unat x div 4 < 64" "(unat x mod 4) * 16 + unat y div 16 < 64"
    "(unat y mod 16) * 4 + unat z div 64 < 64" "unat z mod 64 < 64"
    "(unat x mod 4) * 16 < 64" "(unat y mod 16) * 4 < 64"
proof -
  have "unat x div 4 < 64" "unat y div 16 < 16" "unat z div 64 < 4"
    using byte_bound [of x] byte_bound [of y] byte_bound [of z] by simp_all
  moreover have "unat x mod 4 < 4" "unat y mod 16 < 16" by simp_all
  ultimately show "unat x div 4 < 64" "(unat x mod 4) * 16 + unat y div 16 < 64"
    "(unat y mod 16) * 4 + unat z div 64 < 64" "unat z mod 64 < 64"
    "(unat x mod 4) * 16 < 64" "(unat y mod 16) * 4 < 64"
    by simp_all
qed

lemma sextets_rebuild:
  fixes a b c :: nat
  assumes "b < 256" "c < 256"
  shows "a div 4 * 4 + ((a mod 4) * 16 + b div 16) div 16 = a"
    "(((a mod 4) * 16 + b div 16) mod 16) * 16 + ((b mod 16) * 4 + c div 64) div 4 = b"
    "(((b mod 16) * 4 + c div 64) mod 4) * 64 + c mod 64 = c"
    "a div 4 * 4 + ((a mod 4) * 16) div 16 = a"
    "(((a mod 4) * 16 + b div 16) mod 16) * 16 + ((b mod 16) * 4) div 4 = b"
proof -
  have b: "b div 16 < 16" and c: "c div 64 < 4" using assms by simp_all
  from b have hi: "((a mod 4) * 16 + b div 16) div 16 = a mod 4"
    and lo: "((a mod 4) * 16 + b div 16) mod 16 = b div 16" by simp_all
  from c have hi2: "((b mod 16) * 4 + c div 64) div 4 = b mod 16"
    and lo2: "((b mod 16) * 4 + c div 64) mod 4 = c div 64" by simp_all
  have hi3: "((b mod 16) * 4) div 4 = b mod 16" and hi4: "((a mod 4) * 16) div 16 = a mod 4"
    by simp_all
  show "a div 4 * 4 + ((a mod 4) * 16 + b div 16) div 16 = a"
    unfolding hi by (rule div_mult_mod_eq)
  show "(((a mod 4) * 16 + b div 16) mod 16) * 16 + ((b mod 16) * 4 + c div 64) div 4 = b"
    unfolding lo hi2 by (rule div_mult_mod_eq)
  show "(((b mod 16) * 4 + c div 64) mod 4) * 64 + c mod 64 = c"
    unfolding lo2 by (rule div_mult_mod_eq)
  show "a div 4 * 4 + ((a mod 4) * 16) div 16 = a"
    unfolding hi4 by (rule div_mult_mod_eq)
  show "(((a mod 4) * 16 + b div 16) mod 16) * 16 + ((b mod 16) * 4) div 4 = b"
    unfolding lo hi3 by (rule div_mult_mod_eq)
qed

lemma byte_rebuild:
  fixes x y z :: byte
  shows "base64_byte1 (unat x div 4) ((unat x mod 4) * 16 + unat y div 16) = x"
   "base64_byte2 ((unat x mod 4) * 16 + unat y div 16) ((unat y mod 16) * 4 + unat z div 64) = y"
   "base64_byte3 ((unat y mod 16) * 4 + unat z div 64) (unat z mod 64) = z"
   "base64_byte1 (unat x div 4) ((unat x mod 4) * 16) = x"
   "base64_byte2 ((unat x mod 4) * 16 + unat y div 16) ((unat y mod 16) * 4) = y"
  unfolding base64_byte1_def base64_byte2_def base64_byte3_def
    sextets_rebuild [OF byte_bound byte_bound]
  by simp_all

lemma decode_encode: "Buffer_from_base64 (code_units (base64_encode bs)) = bs"
proof (induction bs rule: base64_encode.induct)
  case (1 x y z bs)
  then show ?case
    by (simp add: Buffer_from_base64_def code_units_def base64_values_char sextet_bounds
          byte_rebuild del: base64_values.simps)
next
  case (2 x y)
  then show ?case
    by (simp add: Buffer_from_base64_def code_units_def base64_values_char base64_values_pad
          sextet_bounds byte_rebuild del: base64_values.simps)
next
  case (3 x)
  then show ?case
    by (simp add: Buffer_from_base64_def code_units_def base64_values_char base64_values_pad
          sextet_bounds byte_rebuild del: base64_values.simps)
next
  case 4
  then show ?case by (simp add: Buffer_from_base64_def code_units_def)
qed

lemma length_base64_encode: "length (base64_encode bs) = 4 * ((length bs + 2) div 3)"
proof (induction bs rule: base64_encode.induct)
  case (1 x y z bs)
  have "(5 + length bs) div 3 = Suc ((Suc (Suc (length bs))) div 3)"
  proof -
    have "5 + length bs = Suc (Suc (length bs)) + 3" by simp
    then show ?thesis by (simp only: div_add_self2)
  qed
  with 1 show ?case by simp
qed simp_all


lemma length_code_units: "length (code_units s) = length s"
  by (simp add: code_units_def)

lemma base64_encode_hello:
  "base64_encode [0x68, 0x65, 0x6c, 0x6c, 0x6f] = ''aGVsbG8=''"
proof -
  have "map (of_char :: char \<Rightarrow> nat) (base64_encode [0x68, 0x65, 0x6c, 0x6c, 0x6f])
      = map of_char ''aGVsbG8=''"
    by (simp add: base64_char_upper base64_char_lower base64_char_digit)
  then show ?thesis
    by (simp only: inj_map_eq_map [OF inj_of_char])
qed

subsection \<open>The hexadecimal text\<close>

lemma hex_digits: "list_all (\<lambda>n. hex_value (hex_digit n) = Some n \<and> is_lower_hex (hex_digit n)) [0..<16]"
  by (simp add: upt_rec hex_digit_def hex_value_def is_lower_hex_def)

lemma hex_digit_value: "n < 16 \<Longrightarrow> hex_value (hex_digit n) = Some n"
  and hex_digit_lower: "n < 16 \<Longrightarrow> is_lower_hex (hex_digit n)"
  using hex_digits unfolding list_all_iff by simp_all

lemma nibbles: "unat (b :: byte) div 16 < 16" "unat b mod 16 < 16"
  using byte_bound [of b] by simp_all

lemma hex_decode_toString: "hex_decode (Buffer_toString_hex bs) = Some bs"
proof (induction bs)
  case Nil
  then show ?case by (simp add: Buffer_toString_hex_def)
next
  case (Cons b bs)
  have "word_of_nat (16 * (unat b div 16) + unat b mod 16) = b"
    by (simp add: mult.commute)
  with Cons show ?case
    by (simp add: Buffer_toString_hex_def hex_digit_value nibbles)
qed

lemma toString_hex_lower: "list_all is_lower_hex (Buffer_toString_hex bs)"
  by (induction bs) (simp_all add: Buffer_toString_hex_def hex_digit_lower nibbles)

lemma toString_hex_length: "length (Buffer_toString_hex bs) = 2 * length bs"
  by (induction bs) (simp_all add: Buffer_toString_hex_def)

lemma base64ToHex_hello:
  "base64ToHex v8_max_string_length (code_units ''aGVsbG8='') = Inr ''0x68656c6c6f''"
  by (simp add: base64ToHex_def v8_max_string_length_def Buffer_from_base64_def code_units_def
        low_byte_def unbase64_def Buffer_toString_hex_def base64_byte1_def base64_byte2_def
        base64_byte3_def hex_digit_def)





subsection \<open>What the decoder does with each code unit\<close>

lemma of_char_char_of_range:
  "b \<le> 256 \<Longrightarrow> (of_char :: char \<Rightarrow> nat) ` char_of ` {a..<b} = {a..<b}"
proof -
  assume b: "b \<le> 256"
  have "(of_char :: char \<Rightarrow> nat) ` char_of ` {a..<b} = (\<lambda>n. n) ` {a..<b}"
    unfolding image_image using b by (intro image_cong) auto
  then show ?thesis by simp
qed

lemma base64_codes_ranges:
  "base64_codes = {65..<91} \<union> {97..<123} \<union> {48..<58} \<union> {43, 47, 45, 95}"
  by (auto simp add: base64_codes_def base64_alphabet_def image_Un of_char_char_of_range
        simp del: upt_rec_numeral)

lemma unbase64_codes: "unbase64 n = Some v \<Longrightarrow> n \<in> base64_codes"
  by (auto simp: unbase64_def base64_codes_ranges split: if_splits)

lemma base64_values_skip:
  "low_byte c \<notin> base64_codes \<Longrightarrow> low_byte c \<noteq> 61 \<Longrightarrow>
   base64_values (xs @ c # ys) = base64_values (xs @ ys)"
proof (induction xs)
  case Nil
  then have "unbase64 (low_byte c) = None"
    using unbase64_codes [of "low_byte c"] by (cases "unbase64 (low_byte c)") auto
  with Nil show ?case by simp
next
  case (Cons x xs)
  then show ?case by (simp split: option.splits)
qed

lemma base64_values_stop:
  "base64_values s = base64_values (takeWhile (\<lambda>u. low_byte u \<noteq> 61) s)"
  by (induction s) (simp_all split: option.splits)

lemma low_byte_low_byte: "low_byte (word_of_nat (low_byte u)) = low_byte u"
  by (simp add: low_byte_def unat_of_nat take_bit_eq_mod mod_mod_cancel)

lemma base64_values_low_byte:
  "base64_values (map (\<lambda>u. word_of_nat (low_byte u)) s) = base64_values s"
  by (induction s) (simp_all add: low_byte_low_byte split: option.splits)

lemma length_base64_values: "length (base64_values s) \<le> length s"
  by (induction s) (auto split: option.splits)

lemma length_base64_bytes: "length (base64_bytes vs) \<le> 3 * length vs div 4"
  by (induction vs rule: base64_bytes.induct) simp_all

lemma length_Buffer_from_base64: "length (Buffer_from_base64 s) \<le> 3 * length s div 4"
proof -
  have "length (Buffer_from_base64 s) \<le> 3 * length (base64_values s) div 4"
    by (simp add: Buffer_from_base64_def length_base64_bytes)
  also have "\<dots> \<le> 3 * length s div 4"
    using length_base64_values [of s] by (simp add: div_le_mono)
  finally show ?thesis .
qed

lemma base64_values_A: "base64_values (replicate n 0x41) = replicate n 0"
  by (induction n) (simp_all add: low_byte_def unbase64_def)

lemma length_base64_bytes_groups: "length (base64_bytes (replicate (4 * k) v)) = 3 * k"
proof (induction k)
  case 0
  then show ?case by simp
next
  case (Suc k)
  have "replicate (4 * Suc k) v = v # v # v # v # replicate (4 * k) v"
    by (simp add: numeral_eq_Suc)
  with Suc show ?case by simp
qed

text \<open>
  C9 as stated fails on the code. The string of 400000000 letters \<open>A\<close> decodes to
  300000000 bytes, and \<open>base64ToHex\<close> throws on it (where strings are up to \<open>2^30 - 25\<close>
  characters long, on 800000000 letters). The code unit \<open>U+0141\<close> is not a base64
  character and is not skipped: it is read by its low byte, as \<open>A\<close>. A \<open>=\<close> in the middle
  of a text is not skipped either: decoding stops there.
\<close>

theorem base64ToHex_total_counterexample:
  "length (replicate 400000000 (0x41 :: code_unit)) \<le> v8_max_string_length
   \<and> base64ToHex v8_max_string_length (replicate 400000000 0x41)
       = Inl (OtherError ''ERR_STRING_TOO_LONG'')
   \<and> base64ToHex 1073741799 (replicate 800000000 0x41)
       = Inl (OtherError ''ERR_STRING_TOO_LONG'')
   \<and> base64ToHex v8_max_string_length [0x59, 0x0141] = Inr ''0x60''
   \<and> base64ToHex v8_max_string_length [0x59] = Inr ''0x''
   \<and> base64ToHex v8_max_string_length (code_units ''YQ=YQ'') = Inr ''0x61''
   \<and> base64ToHex v8_max_string_length (code_units ''YQYQ'') = Inr ''0x610610''"
proof -
  have "length (Buffer_from_base64 (replicate (4 * 100000000) 0x41)) = 3 * 100000000"
    unfolding Buffer_from_base64_def base64_values_A by (rule length_base64_bytes_groups)
  then have "base64ToHex v8_max_string_length (replicate 400000000 0x41)
       = Inl (OtherError ''ERR_STRING_TOO_LONG'')"
    by (simp add: base64ToHex_def v8_max_string_length_def)
  moreover have "length (Buffer_from_base64 (replicate (4 * 200000000) 0x41)) = 3 * 200000000"
    unfolding Buffer_from_base64_def base64_values_A by (rule length_base64_bytes_groups)
  then have "base64ToHex 1073741799 (replicate 800000000 0x41)
       = Inl (OtherError ''ERR_STRING_TOO_LONG'')"
    by (simp add: base64ToHex_def)
  moreover have "base64ToHex v8_max_string_length [0x59, 0x0141] = Inr ''0x60''"
    "base64ToHex v8_max_string_length [0x59] = Inr ''0x''"
    "base64ToHex v8_max_string_length (code_units ''YQ=YQ'') = Inr ''0x61''"
    "base64ToHex v8_max_string_length (code_units ''YQYQ'') = Inr ''0x610610''"
    by (simp_all add: base64ToHex_def v8_max_string_length_def Buffer_from_base64_def
          code_units_def low_byte_def unbase64_def Buffer_toString_hex_def base64_byte1_def
          base64_byte2_def base64_byte3_def hex_digit_def)
  moreover have "length (replicate 400000000 (0x41 :: code_unit)) \<le> v8_max_string_length"
    by (simp add: v8_max_string_length_def)
  ultimately show ?thesis by blast
qed

text \<open>
  C9, as the code has it. \<open>base64ToHex\<close> returns, for every input string whose result
  fits in a string of the runtime, \<open>0x\<close> followed by lowercase hexadecimal digits, two
  for each decoded byte, and throws when the result does not fit; the decoded bytes are
  at most three for four code units of the input. In decoding, a code unit is read by
  its low byte; a unit that is then neither in the alphabet (\<open>A\<close> to \<open>Z\<close>, \<open>a\<close> to \<open>z\<close>,
  \<open>0\<close> to \<open>9\<close>, \<open>+\<close>, \<open>/\<close>, \<open>-\<close>, \<open>_\<close>) nor \<open>=\<close> is skipped, and decoding stops at the first
  \<open>=\<close>.
\<close>

theorem base64ToHex_total:
  "(2 + 2 * length (Buffer_from_base64 s) \<le> M \<longrightarrow>
      (\<exists>ds. base64ToHex M s = Inr (''0x'' @ ds) \<and> list_all is_lower_hex ds
            \<and> length ds = 2 * length (Buffer_from_base64 s)))
   \<and> (M < 2 + 2 * length (Buffer_from_base64 s) \<longrightarrow> (\<exists>e. base64ToHex M s = Inl e))
   \<and> length (Buffer_from_base64 s) \<le> 3 * length s div 4
   \<and> (low_byte c \<notin> base64_codes \<and> low_byte c \<noteq> 61 \<longrightarrow>
        base64ToHex M (xs @ c # ys) = base64ToHex M (xs @ ys))
   \<and> base64ToHex M s = base64ToHex M (takeWhile (\<lambda>u. low_byte u \<noteq> 61) s)
   \<and> base64ToHex M s = base64ToHex M (map (\<lambda>u. word_of_nat (low_byte u)) s)"
proof -
  have "base64ToHex M s = base64ToHex M (takeWhile (\<lambda>u. low_byte u \<noteq> 61) s)"
    using base64_values_stop [of s] by (simp add: base64ToHex_def Buffer_from_base64_def)
  moreover have "base64ToHex M s = base64ToHex M (map (\<lambda>u. word_of_nat (low_byte u)) s)"
    by (simp add: base64ToHex_def Buffer_from_base64_def base64_values_low_byte)
  moreover have "base64ToHex M (xs @ c # ys) = base64ToHex M (xs @ ys)"
    if "low_byte c \<notin> base64_codes" "low_byte c \<noteq> 61"
    using base64_values_skip [OF that] by (simp add: base64ToHex_def Buffer_from_base64_def)
  moreover have "\<exists>ds. base64ToHex M s = Inr (''0x'' @ ds) \<and> list_all is_lower_hex ds
            \<and> length ds = 2 * length (Buffer_from_base64 s)"
    if "2 + 2 * length (Buffer_from_base64 s) \<le> M"
    using that by (simp add: base64ToHex_def toString_hex_lower toString_hex_length)
  moreover have "\<exists>e. base64ToHex M s = Inl e" if "M < 2 + 2 * length (Buffer_from_base64 s)"
    using that by (auto simp: base64ToHex_def Let_def)
  ultimately show ?thesis
    using length_Buffer_from_base64 [of s] by blast
qed

theorem base64ToHex_total_witness:
  "2 + 2 * length (Buffer_from_base64 (code_units ''aGV sbG8'')) \<le> v8_max_string_length
   \<and> base64ToHex v8_max_string_length (code_units ''aGV sbG8'') = Inr ''0x68656c6c6f''
   \<and> low_byte 0x20 \<notin> base64_codes \<and> low_byte 0x20 \<noteq> 61
   \<and> base64ToHex v8_max_string_length (code_units ''aGV'' @ 0x20 # code_units ''sbG8'')
       = base64ToHex v8_max_string_length (code_units ''aGV'' @ code_units ''sbG8'')
   \<and> 1 < 2 + 2 * length (Buffer_from_base64 (code_units ''aGV sbG8''))
   \<and> base64ToHex 1 (code_units ''aGV sbG8'') = Inl (OtherError ''ERR_STRING_TOO_LONG'')"
proof -
  have bytes: "Buffer_from_base64 (code_units ''aGV sbG8'') = [0x68, 0x65, 0x6c, 0x6c, 0x6f]"
    by (simp add: Buffer_from_base64_def code_units_def low_byte_def unbase64_def
          base64_byte1_def base64_byte2_def base64_byte3_def)
  have fits: "2 + 2 * length (Buffer_from_base64 (code_units ''aGV sbG8'')) \<le> v8_max_string_length"
    and over: "1 < 2 + 2 * length (Buffer_from_base64 (code_units ''aGV sbG8''))"
    by (simp_all add: bytes v8_max_string_length_def)
  have space: "low_byte 0x20 \<notin> base64_codes" "low_byte 0x20 \<noteq> 61"
    by (simp_all add: low_byte_def base64_codes_ranges)
  have res: "base64ToHex v8_max_string_length (code_units ''aGV sbG8'') = Inr ''0x68656c6c6f''"
    "base64ToHex 1 (code_units ''aGV sbG8'') = Inl (OtherError ''ERR_STRING_TOO_LONG'')"
    by (simp_all add: base64ToHex_def bytes v8_max_string_length_def Buffer_toString_hex_def
          hex_digit_def)
  from base64ToHex_total [of "code_units ''aGV sbG8''" v8_max_string_length "0x20"
      "code_units ''aGV''" "code_units ''sbG8''"] space
  have "base64ToHex v8_max_string_length (code_units ''aGV'' @ 0x20 # code_units ''sbG8'')
       = base64ToHex v8_max_string_length (code_units ''aGV'' @ code_units ''sbG8'')"
    by blast
  with fits over space res show ?thesis by blast
qed

section \<open>Properties of the MPC signing client\<close>

subsection \<open>Evaluating the literal fragment\<close>

lemmas js_eval_defs = js_eval_def start_step_def is_space_def is_quote_def is_digit_def
  is_name_start_def is_name_char_def punctuation_def number_token_def digits_value_def
  closer_def is_closer_def literal_token_def key_token_def value_step_def key_step_def
  after_step_def

lemma eval_empty_object: "js_eval ''({})'' = Inr (JObj [])"
  by (simp add: js_eval_defs)

lemma eval_signed: "js_eval ''({result:{signed_tx:'0xab'}})''
    = Inr (JObj [(''result'', Inr (JObj [(''signed_tx'', Inr (JStr ''0xab''))]))])"
  by (simp add: js_eval_defs)

lemma eval_null: "js_eval ''(null)'' = Inr JNull"
  by (simp add: js_eval_defs)

lemma eval_brace: "js_eval ''(})'' = Inl SyntaxError"
  by (simp add: js_eval_defs)

lemma getMpcSign_empty_object: "getMpcSign js_eval (Inr ''{}'') = Inr (JStr [])"
  using eval_empty_object by (simp add: getMpcSign_def get_property_def)

lemma getMpcSign_signed:
  "getMpcSign js_eval (Inr ''{result:{signed_tx:'0xab'}}'') = Inr (JStr ''0xab'')"
  using eval_signed by (simp add: getMpcSign_def get_property_def)

lemma getMpcSign_transport: "getMpcSign ev (Inl e) = Inl e"
  by (simp add: getMpcSign_def)

subsection \<open>The single-shot operations\<close>

text \<open>
  C1. The claim is that a response body is parsed as strict JSON and never evaluated
  as code, a malformed body giving \<open>null\<close> or the empty string. The code evaluates the
  body with \<open>eval\<close>: on the malformed body \<open>}\<close> each of the three operations rejects
  with the \<open>SyntaxError\<close> that \<open>eval\<close> throws, and the body
  \<open>{result:{signed_tx:'0xab'}}\<close>, which is JavaScript and not JSON, is accepted and gives
  the signature \<open>0xab\<close>.
\<close>

theorem mpc_eval_executes_body:
  "getLatestMpc js_eval (Inr ''}'') = Inl SyntaxError
   \<and> proposeMpcSign js_eval (Inr ''}'') = Inl SyntaxError
   \<and> getMpcSign js_eval (Inr ''}'') = Inl SyntaxError
   \<and> getMpcSign js_eval (Inr ''{result:{signed_tx:'0xab'}}'') = Inr (JStr ''0xab'')"
  using eval_brace getMpcSign_signed
  by (simp add: getLatestMpc_def proposeMpcSign_def getMpcSign_def)

lemma eval_empty_address: \<open>js_eval ''({"result":{"mpc_address":""}})''
    = Inr (JObj [(''result'', Inr (JObj [(''mpc_address'', Inr (JStr []))]))])\<close>
  by (simp add: js_eval_defs)

lemma eval_zero_error: \<open>js_eval ''({"error":0})'' = Inr (JObj [(''error'', Inr (JNum 0))])\<close>
  by (simp add: js_eval_defs)

text \<open>
  C5 as stated fails on the code. The body \<open>null\<close> is well-formed JSON, and each of the
  three operations rejects with a \<open>TypeError\<close> on it. A body with an empty
  \<open>result.mpc_address\<close> contains the field and \<open>getLatestMpc\<close> returns \<open>null\<close>; a body whose
  \<open>error\<close> field is \<open>0\<close> carries the field and \<open>proposeMpcSign\<close> returns the object.
\<close>

theorem mpc_single_shot_counterexample:
  \<open>getLatestMpc js_eval (Inr ''null'') = Inl TypeError
   \<and> proposeMpcSign js_eval (Inr ''null'') = Inl TypeError
   \<and> getMpcSign js_eval (Inr ''null'') = Inl TypeError
   \<and> getLatestMpc js_eval (Inr ''{"result":{"mpc_address":""}}'') = Inr JNull
   \<and> proposeMpcSign js_eval (Inr ''{"error":0}'') = Inr (JObj [(''error'', Inr (JNum 0))])\<close>
  using eval_null eval_empty_address eval_zero_error
  by (simp add: getLatestMpc_def proposeMpcSign_def getMpcSign_def get_property_def)

lemma truthy_not_nullish: "truthy v \<Longrightarrow> v \<noteq> JUndefined \<and> v \<noteq> JNull"
  by (cases v) simp_all

lemma plain_property:
  "plain v \<Longrightarrow> own_property v name = Inr (property_value v name) \<and> plain (property_value v name)"
proof (cases v)
  case (JObj ps)
  assume p: "plain v"
  show ?thesis
  proof (cases "map_of ps name")
    case None
    with JObj show ?thesis by (simp add: property_value_def)
  next
    case (Some outcome)
    then have "(name, outcome) \<in> set ps" by (rule map_of_SomeD)
    with p JObj obtain x where "outcome = Inr x" "plain x"
      by (cases outcome) force+
    with JObj Some show ?thesis by (simp add: property_value_def)
  qed
qed (simp_all add: property_value_def)

lemma plain_get_property:
  "plain v \<Longrightarrow> v \<noteq> JNull \<Longrightarrow> v \<noteq> JUndefined \<Longrightarrow>
   get_property v name = Inr (property_value v name)"
  by (simp add: get_property_def plain_property)

text \<open>An accessor that throws makes the read throw, and the operation reject.\<close>

lemma throwing_accessor:
  assumes "resp \<noteq> []"
    and "ev (''('' @ resp @ '')'') = Inr (JObj [(''result'', Inl e), (''error'', Inl e)])"
  shows "getLatestMpc ev (Inr resp) = Inl e" "proposeMpcSign ev (Inr resp) = Inl e"
    "getMpcSign ev (Inr resp) = Inl e"
  using assms by (simp_all add: getLatestMpc_def proposeMpcSign_def getMpcSign_def get_property_def)

text \<open>
  C5, as the code has it. On the empty body \<open>getLatestMpc\<close> and \<open>proposeMpcSign\<close> return
  \<open>null\<close> and \<open>getMpcSign\<close> the empty string. On a non-empty body that evaluates to a
  plain data value \<open>obj\<close> (one with no accessor property that throws, as every JSON
  value is) other than \<open>null\<close> and \<open>undefined\<close>, none of the three raises: \<open>getLatestMpc\<close>
  returns \<open>obj.result\<close> when \<open>obj.result\<close> and \<open>obj.result.mpc_address\<close> are truthy and
  \<open>null\<close> otherwise; \<open>proposeMpcSign\<close> returns \<open>null\<close> when \<open>obj.error\<close> is truthy and \<open>obj\<close>
  otherwise; \<open>getMpcSign\<close> returns \<open>obj.result.signed_tx\<close> when \<open>obj.error\<close> is falsy and
  \<open>obj.result\<close> and \<open>obj.result.signed_tx\<close> are truthy, and the empty string otherwise.
\<close>

theorem mpc_single_shot_results:
  "getLatestMpc ev (Inr []) = Inr JNull
   \<and> proposeMpcSign ev (Inr []) = Inr JNull
   \<and> getMpcSign ev (Inr []) = Inr (JStr [])
   \<and> (resp \<noteq> [] \<and> ev (''('' @ resp @ '')'') = Inr obj \<and> plain obj
        \<and> obj \<noteq> JNull \<and> obj \<noteq> JUndefined
      \<longrightarrow> getLatestMpc ev (Inr resp) =
            Inr (if truthy (property_value obj ''result'')
                    \<and> truthy (property_value (property_value obj ''result'') ''mpc_address'')
                 then property_value obj ''result'' else JNull)
        \<and> proposeMpcSign ev (Inr resp) =
            Inr (if truthy (property_value obj ''error'') then JNull else obj)
        \<and> getMpcSign ev (Inr resp) =
            Inr (if \<not> truthy (property_value obj ''error'')
                    \<and> truthy (property_value obj ''result'')
                    \<and> truthy (property_value (property_value obj ''result'') ''signed_tx'')
                 then property_value (property_value obj ''result'') ''signed_tx''
                 else JStr []))"
proof -
  have "getLatestMpc ev (Inr resp) =
            Inr (if truthy (property_value obj ''result'')
                    \<and> truthy (property_value (property_value obj ''result'') ''mpc_address'')
                 then property_value obj ''result'' else JNull)
        \<and> proposeMpcSign ev (Inr resp) =
            Inr (if truthy (property_value obj ''error'') then JNull else obj)
        \<and> getMpcSign ev (Inr resp) =
            Inr (if \<not> truthy (property_value obj ''error'')
                    \<and> truthy (property_value obj ''result'')
                    \<and> truthy (property_value (property_value obj ''result'') ''signed_tx'')
                 then property_value (property_value obj ''result'') ''signed_tx''
                 else JStr [])"
    if h: "resp \<noteq> []" "ev (''('' @ resp @ '')'') = Inr obj" "plain obj" "obj \<noteq> JNull"
      "obj \<noteq> JUndefined"
  proof -
    note top = plain_get_property [OF h(3,4,5)]
    have r: "plain (property_value obj ''result'')"
      using plain_property [OF h(3)] by simp
    have inner: "get_property (property_value obj ''result'') name
        = Inr (property_value (property_value obj ''result'') name)"
      if "truthy (property_value obj ''result'')" for name
      using plain_get_property [OF r] truthy_not_nullish [OF that] by simp
    show ?thesis
      using h(1,2) by (simp add: getLatestMpc_def proposeMpcSign_def getMpcSign_def top inner)
  qed
  then show ?thesis
    by (simp add: getLatestMpc_def proposeMpcSign_def getMpcSign_def)
qed

lemma eval_address: "js_eval ''({result:{mpc_address:'0xabc'}})''
    = Inr (JObj [(''result'', Inr (JObj [(''mpc_address'', Inr (JStr ''0xabc''))]))])"
  by (simp add: js_eval_defs)

theorem mpc_single_shot_results_witness:
  "''{result:{mpc_address:'0xabc'}}'' \<noteq> []
   \<and> js_eval (''('' @ ''{result:{mpc_address:'0xabc'}}'' @ '')'')
       = Inr (JObj [(''result'', Inr (JObj [(''mpc_address'', Inr (JStr ''0xabc''))]))])
   \<and> plain (JObj [(''result'', Inr (JObj [(''mpc_address'', Inr (JStr ''0xabc''))]))])
   \<and> JObj [(''result'', Inr (JObj [(''mpc_address'', Inr (JStr ''0xabc''))]))] \<noteq> JNull
   \<and> JObj [(''result'', Inr (JObj [(''mpc_address'', Inr (JStr ''0xabc''))]))] \<noteq> JUndefined
   \<and> getLatestMpc js_eval (Inr ''{result:{mpc_address:'0xabc'}}'')
       = Inr (JObj [(''mpc_address'', Inr (JStr ''0xabc''))])
   \<and> proposeMpcSign js_eval (Inr ''{result:{mpc_address:'0xabc'}}'')
       = Inr (JObj [(''result'', Inr (JObj [(''mpc_address'', Inr (JStr ''0xabc''))]))])
   \<and> getMpcSign js_eval (Inr ''{result:{mpc_address:'0xabc'}}'') = Inr (JStr [])"
proof -
  have ev: "js_eval (''('' @ ''{result:{mpc_address:'0xabc'}}'' @ '')'')
      = Inr (JObj [(''result'', Inr (JObj [(''mpc_address'', Inr (JStr ''0xabc''))]))])"
    using eval_address by simp
  show ?thesis
    using mpc_single_shot_results [of js_eval "''{result:{mpc_address:'0xabc'}}''"
        "JObj [(''result'', Inr (JObj [(''mpc_address'', Inr (JStr ''0xabc''))]))]"] ev
    by (simp add: property_value_def)
qed

subsection \<open>The polling loop\<close>

lemma settled_before_cases:
  "settled_before ties best tick = Some (c, s) \<Longrightarrow> best = Some (c, s) \<and> c \<le> tick"
  by (auto simp: settled_before_def split: option.splits if_splits)

lemma settled_before_earlier:
  "best = Some (c, s) \<Longrightarrow> c < tick \<Longrightarrow> settled_before ties best tick = Some (c, s)"
  by (simp add: settled_before_def)

lemma settled_before_later:
  "\<forall>c s. best = Some (c, s) \<longrightarrow> tick < c \<Longrightarrow> settled_before ties best tick = None"
  by (auto simp: settled_before_def split: option.splits)

lemma polled_at_ticks:
  "\<exists>m. polled_at (interval_ticks ev ties st mt d tick best fired ps) =
         fired @ map (\<lambda>i. tick + int i * d) [0..<m]"
proof (induction ps arbitrary: tick best fired)
  case Nil
  have "\<exists>m. fired = fired @ map (\<lambda>i. tick + int i * d) [0..<m]"
    by (rule exI [of _ 0]) simp
  then show ?case by (auto split: option.splits)
next
  case (Cons p ps)
  show ?case
  proof (cases "settled_before ties best tick")
    case (Some a)
    have "\<exists>m. fired = fired @ map (\<lambda>i. tick + int i * d) [0..<m]"
      by (rule exI [of _ 0]) simp
    with Some show ?thesis by (auto split: prod.splits)
  next
    case None
    define best' where "best' = (case callback_settles st mt (tick + int (latency p))
                               (getMpcSign ev (response p)) of
                          None \<Rightarrow> best
                        | Some s \<Rightarrow> first_to_settle ties best (tick + int (latency p), s))"
    from Cons.IH [of "tick + d" best' "fired @ [tick]"]
    obtain m where m: "polled_at (interval_ticks ev ties st mt d (tick + d) best' (fired @ [tick]) ps)
        = (fired @ [tick]) @ map (\<lambda>i. tick + d + int i * d) [0..<m]" by blast
    have "map (\<lambda>i. tick + int i * d) [0..<Suc m]
        = tick # map (\<lambda>i. tick + d + int i * d) [0..<m]"
      by (simp add: upt_conv_Cons map_Suc_upt [symmetric] algebra_simps del: upt_Suc)
    with m have "polled_at (interval_ticks ev ties st mt d (tick + d) best' (fired @ [tick]) ps)
        = fired @ map (\<lambda>i. tick + int i * d) [0..<Suc m]" by simp
    with None show ?thesis
      unfolding best'_def by (auto simp: Let_def simp del: upt_Suc)
  qed
qed

lemma polled_before_settled:
  assumes "0 \<le> d"
    and "\<forall>t \<in> set fired. t \<le> tick \<and> (\<forall>c s. best = Some (c, s) \<longrightarrow> t \<le> c)"
    and "settled_at (interval_ticks ev ties st mt d tick best fired ps) = Some S"
  shows "\<forall>t \<in> set (polled_at (interval_ticks ev ties st mt d tick best fired ps)). t \<le> S"
  using assms(2,3)
proof (induction ps arbitrary: tick best fired)
  case Nil
  then show ?case
    by (auto split: option.splits dest!: settled_before_cases)
next
  case (Cons p ps)
  show ?case
  proof (cases "settled_before ties best tick")
    case (Some a)
    with Cons.prems show ?thesis
      by (cases a) (auto dest!: settled_before_cases)
  next
    case None
    define best' where "best' = (case callback_settles st mt (tick + int (latency p))
                               (getMpcSign ev (response p)) of
                          None \<Rightarrow> best
                        | Some s \<Rightarrow> first_to_settle ties best (tick + int (latency p), s))"
    have run: "interval_ticks ev ties st mt d tick best fired (p # ps)
        = interval_ticks ev ties st mt d (tick + d) best' (fired @ [tick]) ps"
      using None by (simp add: best'_def Let_def)
    have here: "\<forall>c s. best = Some (c, s) \<longrightarrow> tick \<le> c"
      using None by (auto simp: settled_before_def split: if_splits)
    have cand: "\<forall>c s. best' = Some (c, s) \<longrightarrow> best = Some (c, s) \<or> c = tick + int (latency p)"
      by (auto simp: best'_def first_to_settle_def split: option.splits if_splits)
    have "\<forall>t \<in> set (fired @ [tick]). t \<le> tick + d \<and> (\<forall>c s. best' = Some (c, s) \<longrightarrow> t \<le> c)"
    proof
      fix t assume t: "t \<in> set (fired @ [tick])"
      then have le: "t \<le> tick" using Cons.prems(1) by auto
      have "t \<le> c" if "best' = Some (c, s)" for c s
      proof -
        from cand that consider "best = Some (c, s)" | "c = tick + int (latency p)" by blast
        then show ?thesis
        proof cases
          case 1
          with t Cons.prems(1) here show ?thesis by auto
        next
          case 2
          with le show ?thesis by simp
        qed
      qed
      with le assms(1) show "t \<le> tick + d \<and> (\<forall>c s. best' = Some (c, s) \<longrightarrow> t \<le> c)"
        by auto
    qed
    from Cons.IH [OF this] Cons.prems(2) show ?thesis
      unfolding run by simp
  qed
qed

text \<open>The answer in flight that settles first wins, when every later poll settles later.\<close>

lemma best_settles:
  assumes "0 \<le> d"
    and "best = Some (C, s)"
    and "\<forall>i < length ps.
           callback_settles st mt (tick + int i * d + int (latency (ps ! i)))
             (getMpcSign ev (response (ps ! i))) \<noteq> None
           \<longrightarrow> C < tick + int i * d + int (latency (ps ! i))"
    and "C < tick + int (length ps) * d"
  shows "outcome (interval_ticks ev ties st mt d tick best fired ps) = s
       \<and> settled_at (interval_ticks ev ties st mt d tick best fired ps) = Some C"
  using assms(3,4)
proof (induction ps arbitrary: tick fired)
  case Nil
  then show ?case
    using assms(2) by (simp add: settled_before_def)
next
  case (Cons p ps)
  show ?case
  proof (cases "settled_before ties best tick")
    case (Some a)
    with assms(2) show ?thesis
      by (cases a) (auto dest!: settled_before_cases)
  next
    case None
    have keep: "(case callback_settles st mt (tick + int (latency p)) (getMpcSign ev (response p)) of
                   None \<Rightarrow> best
                 | Some s' \<Rightarrow> first_to_settle ties best (tick + int (latency p), s')) = best"
    proof (cases "callback_settles st mt (tick + int (latency p)) (getMpcSign ev (response p))")
      case None
      then show ?thesis by simp
    next
      case (Some s')
      with Cons.prems(1) [rule_format, of 0] have "C < tick + int (latency p)" by simp
      with Some assms(2) show ?thesis by (simp add: first_to_settle_def)
    qed
    have others: "\<forall>i < length ps.
           callback_settles st mt (tick + d + int i * d + int (latency (ps ! i)))
             (getMpcSign ev (response (ps ! i))) \<noteq> None
           \<longrightarrow> C < tick + d + int i * d + int (latency (ps ! i))"
    proof (intro allI impI)
      fix i assume i: "i < length ps"
        and s: "callback_settles st mt (tick + d + int i * d + int (latency (ps ! i)))
             (getMpcSign ev (response (ps ! i))) \<noteq> None"
      have eq: "tick + int (Suc i) * d = tick + d + int i * d" by (simp add: algebra_simps)
      from Cons.prems(1) [rule_format, of "Suc i"] i s
      show "C < tick + d + int i * d + int (latency (ps ! i))"
        by (simp add: eq del: of_nat_Suc)
    qed
    have cover: "C < tick + d + int (length ps) * d"
      using Cons.prems(2) by (simp add: algebra_simps)
    from Cons.IH [OF others cover, of "fired @ [tick]"] None keep show ?thesis
      by (simp add: Let_def)
  qed
qed

lemma poll_settles:
  assumes "0 \<le> d"
    and "j < length ps"
    and "callback_settles st mt (tick + int j * d + int (latency (ps ! j)))
           (getMpcSign ev (response (ps ! j))) = Some s"
    and "\<forall>c' s'. best = Some (c', s') \<longrightarrow> tick + int j * d + int (latency (ps ! j)) < c'"
    and "\<forall>i < length ps. i \<noteq> j \<longrightarrow>
           callback_settles st mt (tick + int i * d + int (latency (ps ! i)))
             (getMpcSign ev (response (ps ! i))) \<noteq> None
           \<longrightarrow> tick + int j * d + int (latency (ps ! j)) < tick + int i * d + int (latency (ps ! i))"
    and "tick + int j * d + int (latency (ps ! j)) < tick + int (length ps) * d"
  shows "outcome (interval_ticks ev ties st mt d tick best fired ps) = s
       \<and> settled_at (interval_ticks ev ties st mt d tick best fired ps)
           = Some (tick + int j * d + int (latency (ps ! j)))"
  using assms(2-6)
proof (induction ps arbitrary: tick best fired j)
  case Nil
  then show ?case by simp
next
  case (Cons p ps)
  let ?C = "tick + int j * d + int (latency ((p # ps) ! j))"
  have jd: "0 \<le> int j * d" using assms(1) by simp
  then have "tick \<le> ?C" by simp
  with Cons.prems(3) have nb: "settled_before ties best tick = None"
    by (intro settled_before_later) auto
  define best' where "best' = (case callback_settles st mt (tick + int (latency p))
                               (getMpcSign ev (response p)) of
                          None \<Rightarrow> best
                        | Some s \<Rightarrow> first_to_settle ties best (tick + int (latency p), s))"
  have run: "interval_ticks ev ties st mt d tick best fired (p # ps)
      = interval_ticks ev ties st mt d (tick + d) best' (fired @ [tick]) ps"
    using nb by (simp add: best'_def Let_def)
  have shift: "tick + int (Suc i) * d = tick + d + int i * d" for i
    by (simp add: algebra_simps)
  show ?case
  proof (cases j)
    case 0
    with Cons.prems(2) have s0: "callback_settles st mt (tick + int (latency p))
        (getMpcSign ev (response p)) = Some s" by simp
    have b: "best' = Some (tick + int (latency p), s)"
      using s0 Cons.prems(3) 0
      by (auto simp: best'_def first_to_settle_def split: option.splits)
    have others: "\<forall>i < length ps.
           callback_settles st mt (tick + d + int i * d + int (latency (ps ! i)))
             (getMpcSign ev (response (ps ! i))) \<noteq> None
           \<longrightarrow> tick + int (latency p) < tick + d + int i * d + int (latency (ps ! i))"
    proof (intro allI impI)
      fix i assume i: "i < length ps"
        and s: "callback_settles st mt (tick + d + int i * d + int (latency (ps ! i)))
             (getMpcSign ev (response (ps ! i))) \<noteq> None"
      from Cons.prems(4) [rule_format, of "Suc i"] i s 0
      show "tick + int (latency p) < tick + d + int i * d + int (latency (ps ! i))"
        by (simp add: shift del: of_nat_Suc)
    qed
    have cover: "tick + int (latency p) < tick + d + int (length ps) * d"
      using Cons.prems(5) 0 by (simp add: algebra_simps)
    from best_settles [OF assms(1) b others cover, of ties "fired @ [tick]"] 0 show ?thesis
      unfolding run by simp
  next
    case (Suc j')
    have C: "?C = tick + d + int j' * d + int (latency (ps ! j'))"
      using Suc by (simp add: algebra_simps)
    have j': "j' < length ps" using Cons.prems(1) Suc by simp
    have win: "callback_settles st mt (tick + d + int j' * d + int (latency (ps ! j')))
           (getMpcSign ev (response (ps ! j'))) = Some s"
      using Cons.prems(2) Suc by (simp add: algebra_simps)
    have first: "callback_settles st mt (tick + int (latency p)) (getMpcSign ev (response p)) \<noteq> None
        \<Longrightarrow> ?C < tick + int (latency p)"
      using Cons.prems(4) [rule_format, of 0] Suc by simp
    have b: "\<forall>c' s'. best' = Some (c', s') \<longrightarrow> tick + d + int j' * d + int (latency (ps ! j')) < c'"
      using Cons.prems(3) first unfolding C [symmetric]
      by (auto simp: best'_def first_to_settle_def split: option.splits if_splits)
    have others: "\<forall>i < length ps. i \<noteq> j' \<longrightarrow>
           callback_settles st mt (tick + d + int i * d + int (latency (ps ! i)))
             (getMpcSign ev (response (ps ! i))) \<noteq> None
           \<longrightarrow> tick + d + int j' * d + int (latency (ps ! j'))
                 < tick + d + int i * d + int (latency (ps ! i))"
    proof (intro allI impI)
      fix i assume i: "i < length ps" "i \<noteq> j'"
        and s: "callback_settles st mt (tick + d + int i * d + int (latency (ps ! i)))
             (getMpcSign ev (response (ps ! i))) \<noteq> None"
      from Cons.prems(4) [rule_format, of "Suc i"] i s Suc
      show "tick + d + int j' * d + int (latency (ps ! j'))
                 < tick + d + int i * d + int (latency (ps ! i))"
        unfolding C [symmetric] by (simp add: shift del: of_nat_Suc)
    qed
    have cover: "tick + d + int j' * d + int (latency (ps ! j')) < tick + d + int (length ps) * d"
      using Cons.prems(5) unfolding C [symmetric] by (simp add: algebra_simps)
    from Cons.IH [OF j' win b others cover, of "fired @ [tick]"] show ?thesis
      unfolding run C by simp
  qed
qed


text \<open>When every answer is the empty signature, the deadline settles the promise.\<close>

lemma empty_answers_settle:
  assumes "0 \<le> d"
    and "\<forall>p \<in> set ps. getMpcSign ev (response p) = Inr (JStr []) \<and> latency p \<le> L"
    and "\<forall>c s. best = Some (c, s) \<longrightarrow> s = Resolved (JStr []) \<and> st + mt \<le> c"
    and "(\<exists>c s. best = Some (c, s) \<and> c \<le> B \<and> c < tick + int (length ps) * d)
       \<or> (\<exists>i < length ps. mt \<le> tick + int i * d - st \<and> tick + int i * d + int L \<le> B
              \<and> tick + int i * d + int L < tick + int (length ps) * d)"
  shows "outcome (interval_ticks ev ties st mt d tick best fired ps) = Resolved (JStr [])
       \<and> (\<exists>S. settled_at (interval_ticks ev ties st mt d tick best fired ps) = Some S
              \<and> st + mt \<le> S \<and> S \<le> B)"
  using assms(2-4)
proof (induction ps arbitrary: tick best fired)
  case Nil
  then obtain c s where "best = Some (c, s)" "c \<le> B" "c < tick" by auto
  with Nil.prems(2) show ?case by (auto simp: settled_before_def)
next
  case (Cons p ps)
  show ?case
  proof (cases "settled_before ties best tick")
    case (Some a)
    obtain c s where a: "a = (c, s)" by (cases a)
    with Some have b: "best = Some (c, s)" "c \<le> tick"
      by (auto dest: settled_before_cases)
    have "c \<le> B"
    proof -
      from Cons.prems(3) consider "c \<le> B"
        | i where "tick + int i * d + int L \<le> B"
        using b by auto
      then show ?thesis
      proof cases
        case 1
        then show ?thesis .
      next
        case 2
        have "0 \<le> int i * d" using assms(1) by simp
        with 2 b show ?thesis by linarith
      qed
    qed
    with Some a b Cons.prems(2) show ?thesis by auto
  next
    case None
    let ?c0 = "tick + int (latency p)"
    define best' where "best' = (case callback_settles st mt ?c0 (getMpcSign ev (response p)) of
                          None \<Rightarrow> best
                        | Some s \<Rightarrow> first_to_settle ties best (?c0, s))"
    have run: "interval_ticks ev ties st mt d tick best fired (p # ps)
        = interval_ticks ev ties st mt d (tick + d) best' (fired @ [tick]) ps"
      using None by (simp add: best'_def Let_def)
    have p: "getMpcSign ev (response p) = Inr (JStr [])" "latency p \<le> L"
      using Cons.prems(1) by auto
    have cb: "callback_settles st mt ?c0 (getMpcSign ev (response p))
        = (if mt \<le> ?c0 - st then Some (Resolved (JStr [])) else None)"
      by (simp add: callback_settles_def p)
    have inv: "\<forall>c s. best' = Some (c, s) \<longrightarrow> s = Resolved (JStr []) \<and> st + mt \<le> c"
      using Cons.prems(2)
      by (auto simp: best'_def cb first_to_settle_def split: option.splits if_splits)
    have rest: "\<forall>p \<in> set ps. getMpcSign ev (response p) = Inr (JStr []) \<and> latency p \<le> L"
      using Cons.prems(1) by simp
    have len: "tick + int (length (p # ps)) * d = tick + d + int (length ps) * d"
      by (simp add: algebra_simps)
    have progress: "(\<exists>c s. best' = Some (c, s) \<and> c \<le> B \<and> c < tick + d + int (length ps) * d)
       \<or> (\<exists>i < length ps. mt \<le> tick + d + int i * d - st \<and> tick + d + int i * d + int L \<le> B
              \<and> tick + d + int i * d + int L < tick + d + int (length ps) * d)"
    proof -
      from Cons.prems(3) consider
        (old) c s where "best = Some (c, s)" "c \<le> B" "c < tick + d + int (length ps) * d"
        | (now) "mt \<le> tick - st" "tick + int L \<le> B" "tick + int L < tick + d + int (length ps) * d"
        | (later) i where "i < length ps" "mt \<le> tick + int (Suc i) * d - st"
            "tick + int (Suc i) * d + int L \<le> B"
            "tick + int (Suc i) * d + int L < tick + d + int (length ps) * d"
        unfolding len
      proof (elim disjE exE conjE, goal_cases)
        case (1 c s)
        then show ?case by blast
      next
        case (2 i)
        then show ?case
          by (cases i) (simp_all del: of_nat_Suc)
      qed
      then show ?thesis
      proof cases
        case old
        then have "\<exists>c' s'. best' = Some (c', s') \<and> c' \<le> c"
          by (auto simp: best'_def cb first_to_settle_def)
        with old show ?thesis by force
      next
        case now
        then have "\<exists>c' s'. best' = Some (c', s') \<and> c' \<le> ?c0"
          by (auto simp: best'_def cb first_to_settle_def split: option.splits)
        moreover have "?c0 \<le> tick + int L" using p by simp
        ultimately show ?thesis using now by force
      next
        case later
        have "tick + int (Suc i) * d = tick + d + int i * d" by (simp add: algebra_simps)
        with later show ?thesis by (auto simp del: of_nat_Suc)
      qed
    qed
    from Cons.IH [OF rest inv progress, of "fired @ [tick]"] show ?thesis
      unfolding run .
  qed
qed


lemma timer_delay_pos: "0 < timer_delay interval"
  by (simp add: timer_delay_def)

lemma deadline_tick:
  fixes d mt :: int and n :: nat
  assumes "0 < d" "max mt 0 + int L < int n * d"
  shows "\<exists>i < n. mt \<le> (int i + 1) * d \<and> int i * d \<le> max mt 0"
proof -
  have n: "0 < n"
    using assms by (cases n) auto
  have last: "mt \<le> (int (n - 1) + 1) * d"
    using assms n by (simp add: of_nat_diff)
  define i where "i = (LEAST i. mt \<le> (int i + 1) * d)"
  have P: "mt \<le> (int i + 1) * d"
    unfolding i_def using last by (rule LeastI)
  have "i \<le> n - 1"
    unfolding i_def using last by (rule Least_le)
  with n have "i < n" by simp
  moreover have "int i * d \<le> max mt 0"
  proof (cases i)
    case 0
    then show ?thesis by simp
  next
    case (Suc k)
    then have "k < i" by simp
    then have "\<not> mt \<le> (int k + 1) * d"
      unfolding i_def by (rule not_less_Least)
    with Suc show ?thesis by (simp add: algebra_simps)
  qed
  ultimately show ?thesis using P by blast
qed

lemmas run_defs = getMpcSignWithTimeout_def timer_delay_def settled_before_def
  callback_settles_def first_to_settle_def answered_at_def Let_def

text \<open>
  C3, as the code has it. \<open>getMpcSignWithTimeout\<close> polls \<open>getMpcSign\<close> on a fixed interval,
  the first poll one interval after the call (not at once): poll \<open>k\<close> is made \<open>k\<close>
  intervals after the call, and no poll is made after the promise has settled. If every
  poll returns the empty signature, each within \<open>L\<close> milliseconds (of any length), and
  the polls reach the deadline, the promise resolves with the empty string, no earlier
  than \<open>maxTimeout\<close> and no later than \<open>maxTimeout\<close> plus one interval plus \<open>L\<close> after the
  call. If a poll returns a non-empty signature, and every other poll whose answer
  settles the promise (an error, a signature, the deadline passed) is answered later,
  the promise resolves with that signature when this poll is answered. All this holds
  whichever way events of the same millisecond are ordered.
\<close>

theorem getMpcSignWithTimeout_polling:
  "(\<exists>m. polled_at (getMpcSignWithTimeout ev ties now mt interval polls) =
          map (\<lambda>k. now + int k * timer_delay interval) [1..<Suc m])
   \<and> (settled_at (getMpcSignWithTimeout ev ties now mt interval polls) = Some S \<longrightarrow>
        (\<forall>t \<in> set (polled_at (getMpcSignWithTimeout ev ties now mt interval polls)). t \<le> S))
   \<and> ((\<forall>p \<in> set polls. getMpcSign ev (response p) = Inr (JStr []) \<and> latency p \<le> L)
        \<and> max mt 0 + int L < int (length polls) * timer_delay interval
      \<longrightarrow> outcome (getMpcSignWithTimeout ev ties now mt interval polls) = Resolved (JStr [])
          \<and> (\<exists>t. settled_at (getMpcSignWithTimeout ev ties now mt interval polls) = Some t
                \<and> now + mt \<le> t \<and> t \<le> now + max mt 0 + timer_delay interval + int L))
   \<and> (j < length polls \<and> getMpcSign ev (response (polls ! j)) = Inr s \<and> truthy s
        \<and> (\<forall>i < length polls. i \<noteq> j \<longrightarrow>
              callback_settles now mt (answered_at now interval polls i)
                (getMpcSign ev (response (polls ! i))) \<noteq> None
              \<longrightarrow> answered_at now interval polls j < answered_at now interval polls i)
        \<and> answered_at now interval polls j
            < now + (int (length polls) + 1) * timer_delay interval
      \<longrightarrow> outcome (getMpcSignWithTimeout ev ties now mt interval polls) = Resolved s
          \<and> settled_at (getMpcSignWithTimeout ev ties now mt interval polls)
              = Some (answered_at now interval polls j))"
proof -
  define d where "d = timer_delay interval"
  have d: "0 < d" "0 \<le> d" using timer_delay_pos [of interval] by (simp_all add: d_def)
  let ?run = "getMpcSignWithTimeout ev ties now mt interval polls"
  have run: "?run = interval_ticks ev ties now mt d (now + d) None [] polls"
    by (simp add: getMpcSignWithTimeout_def d_def)
  have at: "answered_at now interval polls k = now + d + int k * d + int (latency (polls ! k))"
    for k by (simp add: answered_at_def d_def algebra_simps)
  have a: "\<exists>m. polled_at ?run = map (\<lambda>k. now + int k * d) [1..<Suc m]"
  proof -
    from polled_at_ticks [of ev ties now mt d "now + d" None "[]" polls]
    obtain m where m: "polled_at ?run = map (\<lambda>i. now + d + int i * d) [0..<m]"
      unfolding run by auto
    have "map (\<lambda>i. now + d + int i * d) [0..<m] = map (\<lambda>k. now + int k * d) [1..<Suc m]"
      by (induction m) (simp_all add: algebra_simps)
    with m show ?thesis by auto
  qed
  have b: "\<forall>t \<in> set (polled_at ?run). t \<le> S" if "settled_at ?run = Some S"
    using polled_before_settled [OF d(2), of "[]" "now + d" None ev ties now mt polls S] that
    unfolding run by simp
  have c: "outcome ?run = Resolved (JStr [])
          \<and> (\<exists>t. settled_at ?run = Some t \<and> now + mt \<le> t \<and> t \<le> now + max mt 0 + d + int L)"
    if all: "\<forall>p \<in> set polls. getMpcSign ev (response p) = Inr (JStr []) \<and> latency p \<le> L"
      and enough: "max mt 0 + int L < int (length polls) * d"
  proof -
    from deadline_tick [OF d(1) enough]
    obtain i where i: "i < length polls" "mt \<le> (int i + 1) * d" "int i * d \<le> max mt 0"
      by blast
    have "\<exists>i < length polls. mt \<le> now + d + int i * d - now
              \<and> now + d + int i * d + int L \<le> now + max mt 0 + d + int L
              \<and> now + d + int i * d + int L < now + d + int (length polls) * d"
      using i enough by (intro exI [of _ i]) (simp add: algebra_simps)
    then show ?thesis
      using empty_answers_settle [OF d(2) all, of None now mt "now + max mt 0 + d + int L"
          "now + d" ties "[]"]
      unfolding run by simp
  qed
  have e: "outcome ?run = Resolved s \<and> settled_at ?run = Some (answered_at now interval polls j)"
    if j: "j < length polls" and sig: "getMpcSign ev (response (polls ! j)) = Inr s" "truthy s"
      and others: "\<forall>i < length polls. i \<noteq> j \<longrightarrow>
              callback_settles now mt (answered_at now interval polls i)
                (getMpcSign ev (response (polls ! i))) \<noteq> None
              \<longrightarrow> answered_at now interval polls j < answered_at now interval polls i"
      and cover: "answered_at now interval polls j < now + (int (length polls) + 1) * d"
  proof -
    have win: "callback_settles now mt (now + d + int j * d + int (latency (polls ! j)))
        (getMpcSign ev (response (polls ! j))) = Some (Resolved s)"
      using sig by (simp add: callback_settles_def)
    have cover': "now + d + int j * d + int (latency (polls ! j))
        < now + d + int (length polls) * d"
      using cover by (simp add: at algebra_simps)
    from poll_settles [OF d(2) j win _ others [unfolded at] cover', of None ties "[]"]
    show ?thesis unfolding run at by simp
  qed
  show ?thesis
    using a b c e unfolding d_def by blast
qed


theorem getMpcSignWithTimeout_polling_witness:
  "getMpcSign js_eval (response \<lparr>response = Inr ''{}'', latency = 1500\<rparr>) = Inr (JStr [])
   \<and> latency \<lparr>response = Inr ''{}'', latency = 1500\<rparr> \<le> 1500
   \<and> max 2000 0 + int 1500
       < int (length (replicate 4 \<lparr>response = Inr ''{}'', latency = 1500\<rparr>)) * timer_delay 1000
   \<and> getMpcSignWithTimeout js_eval \<lparr>timer_first = True, later_answer_first = False\<rparr> 0 2000 1000
        (replicate 4 \<lparr>response = Inr ''{}'', latency = 1500\<rparr>)
       = \<lparr>outcome = Resolved (JStr []), polled_at = [1000, 2000], settled_at = Some 2500\<rparr>
   \<and> truthy (JStr ''0xab'')
   \<and> callback_settles 0 5000 2500 (Inr (JStr [])) = None
   \<and> answered_at 0 1000
        [\<lparr>response = Inr ''{}'', latency = 1500\<rparr>,
         \<lparr>response = Inr ''{result:{signed_tx:'0xab'}}'', latency = 100\<rparr>] 1 = 2100
   \<and> getMpcSignWithTimeout js_eval \<lparr>timer_first = True, later_answer_first = False\<rparr> 0 5000 1000
        [\<lparr>response = Inr ''{}'', latency = 1500\<rparr>,
         \<lparr>response = Inr ''{result:{signed_tx:'0xab'}}'', latency = 100\<rparr>]
       = \<lparr>outcome = Resolved (JStr ''0xab''), polled_at = [1000, 2000], settled_at = Some 2100\<rparr>"
proof -
  let ?ties = "\<lparr>timer_first = True, later_answer_first = False\<rparr>"
  let ?e = "\<lparr>response = Inr ''{}'', latency = 1500\<rparr>"
  let ?p = "\<lparr>response = Inr ''{result:{signed_tx:'0xab'}}'', latency = 100\<rparr>"
  have e: "getMpcSign js_eval (response ?e) = Inr (JStr [])"
    using getMpcSign_empty_object by simp
  have p: "getMpcSign js_eval (response ?p) = Inr (JStr ''0xab'')"
    using getMpcSign_signed by simp
  have d: "timer_delay 1000 = 1000" by (simp add: timer_delay_def)
  have all: "\<forall>q \<in> set (replicate 4 ?e). getMpcSign js_eval (response q) = Inr (JStr [])
      \<and> latency q \<le> 1500"
    using e by simp
  have enough: "max 2000 0 + int 1500 < int (length (replicate 4 ?e)) * timer_delay 1000"
    by (simp add: d)
  have run1: "getMpcSignWithTimeout js_eval ?ties 0 2000 1000 (replicate 4 ?e)
       = \<lparr>outcome = Resolved (JStr []), polled_at = [1000, 2000], settled_at = Some 2500\<rparr>"
    using e by (simp add: run_defs numeral_eq_Suc)
  from getMpcSignWithTimeout_polling [of js_eval ?ties 0 2000 1000 "replicate 4 ?e" _ 1500] all
    enough
  have first: "outcome (getMpcSignWithTimeout js_eval ?ties 0 2000 1000 (replicate 4 ?e))
      = Resolved (JStr [])"
    by blast
  have at: "answered_at 0 1000 [?e, ?p] 1 = 2100" "answered_at 0 1000 [?e, ?p] 0 = 2500"
    by (simp_all add: answered_at_def d)
  have none: "callback_settles 0 5000 2500 (Inr (JStr [])) = None"
    by (simp add: callback_settles_def)
  have others: "\<forall>i < length [?e, ?p]. i \<noteq> 1 \<longrightarrow>
      callback_settles 0 5000 (answered_at 0 1000 [?e, ?p] i)
        (getMpcSign js_eval (response ([?e, ?p] ! i))) \<noteq> None
      \<longrightarrow> answered_at 0 1000 [?e, ?p] 1 < answered_at 0 1000 [?e, ?p] i"
    using e none at by (auto simp: less_Suc_eq)
  have cover: "answered_at 0 1000 [?e, ?p] 1 < 0 + (int (length [?e, ?p]) + 1) * timer_delay 1000"
    by (simp add: answered_at_def d)
  from getMpcSignWithTimeout_polling [of js_eval ?ties 0 5000 1000 "[?e, ?p]" _ _ 1
      "JStr ''0xab''"] p others cover
  have second: "outcome (getMpcSignWithTimeout js_eval ?ties 0 5000 1000 [?e, ?p])
        = Resolved (JStr ''0xab'')
      \<and> settled_at (getMpcSignWithTimeout js_eval ?ties 0 5000 1000 [?e, ?p])
        = Some (answered_at 0 1000 [?e, ?p] 1)"
    by simp
  have run2: "getMpcSignWithTimeout js_eval ?ties 0 5000 1000 [?e, ?p]
       = \<lparr>outcome = Resolved (JStr ''0xab''), polled_at = [1000, 2000], settled_at = Some 2100\<rparr>"
    using e p by (simp add: run_defs)
  show ?thesis
    using e enough run1 first none at(1) second run2 by simp
qed

text \<open>
  C3 as stated fails on the code: with a signature ready from the start and a poll
  interval of 1000 ms, the only poll is made 1000 ms after the call, and the promise
  resolves then; polling does not start immediately.
\<close>

theorem getMpcSignWithTimeout_first_poll_counterexample:
  "getMpcSignWithTimeout js_eval \<lparr>timer_first = True, later_answer_first = False\<rparr> 0 5000 1000
      [\<lparr>response = Inr ''{result:{signed_tx:'0xab'}}'', latency = 0\<rparr>]
     = \<lparr>outcome = Resolved (JStr ''0xab''), polled_at = [1000], settled_at = Some 1000\<rparr>
   \<and> getMpcSignWithTimeout js_eval \<lparr>timer_first = False, later_answer_first = False\<rparr> 0 5000 1000
      [\<lparr>response = Inr ''{result:{signed_tx:'0xab'}}'', latency = 0\<rparr>]
     = \<lparr>outcome = Resolved (JStr ''0xab''), polled_at = [1000], settled_at = Some 1000\<rparr>"
  using getMpcSign_signed by (simp add: run_defs)

text \<open>
  C4 as stated fails on the code. With an interval of 1000 ms, the request of the first
  poll fails after 1500 ms and the second poll is answered at once with a signature:
  the promise resolves with the signature at 2000 ms, and the transport error, which
  comes at 2500 ms, rejects nothing.
\<close>

theorem getMpcSignWithTimeout_transport_error_counterexample:
  "getMpcSignWithTimeout js_eval \<lparr>timer_first = True, later_answer_first = False\<rparr> 0 5000 1000
      [\<lparr>response = Inl (RequestError ''ECONNRESET''), latency = 1500\<rparr>,
       \<lparr>response = Inr ''{result:{signed_tx:'0xab'}}'', latency = 0\<rparr>]
     = \<lparr>outcome = Resolved (JStr ''0xab''), polled_at = [1000, 2000], settled_at = Some 2000\<rparr>
   \<and> getMpcSignWithTimeout js_eval \<lparr>timer_first = False, later_answer_first = True\<rparr> 0 5000 1000
      [\<lparr>response = Inl (RequestError ''ECONNRESET''), latency = 1500\<rparr>,
       \<lparr>response = Inr ''{result:{signed_tx:'0xab'}}'', latency = 0\<rparr>]
     = \<lparr>outcome = Resolved (JStr ''0xab''), polled_at = [1000, 2000], settled_at = Some 2000\<rparr>"
  using getMpcSign_signed by (simp add: run_defs getMpcSign_transport)

text \<open>
  C4, as the code has it. If the request of a poll made by \<open>getMpcSignWithTimeout\<close>
  fails with a transport error, and every other poll whose answer settles the promise
  is answered later (so the promise is still pending), the promise rejects with that
  error when the request fails, and no poll is made after that. This holds whichever
  way events of the same millisecond are ordered.
\<close>

theorem getMpcSignWithTimeout_transport_error:
  assumes "j < length polls"
    and "response (polls ! j) = Inl e"
    and "\<forall>i < length polls. i \<noteq> j \<longrightarrow>
           callback_settles now mt (answered_at now interval polls i)
             (getMpcSign ev (response (polls ! i))) \<noteq> None
           \<longrightarrow> answered_at now interval polls j < answered_at now interval polls i"
    and "answered_at now interval polls j
           < now + (int (length polls) + 1) * timer_delay interval"
  shows "outcome (getMpcSignWithTimeout ev ties now mt interval polls) = Rejected e
       \<and> settled_at (getMpcSignWithTimeout ev ties now mt interval polls)
           = Some (answered_at now interval polls j)
       \<and> (\<forall>t \<in> set (polled_at (getMpcSignWithTimeout ev ties now mt interval polls)).
             t \<le> answered_at now interval polls j)"
proof -
  define d where "d = timer_delay interval"
  have d: "0 \<le> d" using timer_delay_pos [of interval] by (simp add: d_def)
  let ?run = "getMpcSignWithTimeout ev ties now mt interval polls"
  have run: "?run = interval_ticks ev ties now mt d (now + d) None [] polls"
    by (simp add: getMpcSignWithTimeout_def d_def)
  have at: "answered_at now interval polls k = now + d + int k * d + int (latency (polls ! k))"
    for k by (simp add: answered_at_def d_def algebra_simps)
  have win: "callback_settles now mt (now + d + int j * d + int (latency (polls ! j)))
      (getMpcSign ev (response (polls ! j))) = Some (Rejected e)"
    using assms(2) by (simp add: callback_settles_def getMpcSign_transport)
  have cover: "now + d + int j * d + int (latency (polls ! j)) < now + d + int (length polls) * d"
    using assms(4) by (simp add: at d_def [symmetric] algebra_simps)
  from poll_settles [OF d assms(1) win _ assms(3) [unfolded at] cover, of None ties "[]"]
  have settled: "outcome ?run = Rejected e"
    "settled_at ?run = Some (answered_at now interval polls j)"
    unfolding run at by simp_all
  from polled_before_settled [OF d, of "[]" "now + d" None ev ties now mt polls] settled(2)
  have "\<forall>t \<in> set (polled_at ?run). t \<le> answered_at now interval polls j"
    unfolding run by simp
  with settled show ?thesis by simp
qed

theorem getMpcSignWithTimeout_transport_error_witness:
  "1 < length [\<lparr>response = Inr ''{}'', latency = 1500\<rparr>,
               \<lparr>response = Inl (RequestError ''ECONNRESET''), latency = 100\<rparr>,
               \<lparr>response = Inr ''{result:{signed_tx:'0xab'}}'', latency = 0\<rparr>]
   \<and> callback_settles 0 5000 2500 (Inr (JStr [])) = None
   \<and> answered_at 0 1000
        [\<lparr>response = Inr ''{}'', latency = 1500\<rparr>,
         \<lparr>response = Inl (RequestError ''ECONNRESET''), latency = 100\<rparr>,
         \<lparr>response = Inr ''{result:{signed_tx:'0xab'}}'', latency = 0\<rparr>] 1 = 2100
   \<and> answered_at 0 1000
        [\<lparr>response = Inr ''{}'', latency = 1500\<rparr>,
         \<lparr>response = Inl (RequestError ''ECONNRESET''), latency = 100\<rparr>,
         \<lparr>response = Inr ''{result:{signed_tx:'0xab'}}'', latency = 0\<rparr>] 2 = 3000
   \<and> getMpcSignWithTimeout js_eval \<lparr>timer_first = True, later_answer_first = False\<rparr> 0 5000 1000
        [\<lparr>response = Inr ''{}'', latency = 1500\<rparr>,
         \<lparr>response = Inl (RequestError ''ECONNRESET''), latency = 100\<rparr>,
         \<lparr>response = Inr ''{result:{signed_tx:'0xab'}}'', latency = 0\<rparr>]
       = \<lparr>outcome = Rejected (RequestError ''ECONNRESET''), polled_at = [1000, 2000],
          settled_at = Some 2100\<rparr>"
proof -
  let ?ties = "\<lparr>timer_first = True, later_answer_first = False\<rparr>"
  let ?e = "\<lparr>response = Inr ''{}'', latency = 1500\<rparr>"
  let ?x = "\<lparr>response = Inl (RequestError ''ECONNRESET''), latency = 100\<rparr>"
  let ?p = "\<lparr>response = Inr ''{result:{signed_tx:'0xab'}}'', latency = 0\<rparr>"
  have e: "getMpcSign js_eval (response ?e) = Inr (JStr [])"
    using getMpcSign_empty_object by simp
  have p: "getMpcSign js_eval (response ?p) = Inr (JStr ''0xab'')"
    using getMpcSign_signed by simp
  have d: "timer_delay 1000 = 1000" by (simp add: timer_delay_def)
  have at: "answered_at 0 1000 [?e, ?x, ?p] 0 = 2500" "answered_at 0 1000 [?e, ?x, ?p] 1 = 2100"
    "answered_at 0 1000 [?e, ?x, ?p] 2 = 3000"
    by (simp_all add: answered_at_def d)
  have none: "callback_settles 0 5000 2500 (Inr (JStr [])) = None"
    by (simp add: callback_settles_def)
  have j: "1 < length [?e, ?x, ?p]" by simp
  have x: "response ([?e, ?x, ?p] ! 1) = Inl (RequestError ''ECONNRESET'')" by simp
  have others: "\<forall>i < length [?e, ?x, ?p]. i \<noteq> 1 \<longrightarrow>
      callback_settles 0 5000 (answered_at 0 1000 [?e, ?x, ?p] i)
        (getMpcSign js_eval (response ([?e, ?x, ?p] ! i))) \<noteq> None
      \<longrightarrow> answered_at 0 1000 [?e, ?x, ?p] 1 < answered_at 0 1000 [?e, ?x, ?p] i"
    using e none by (auto simp: less_Suc_eq numeral_3_eq_3 answered_at_def d)
  have cover: "answered_at 0 1000 [?e, ?x, ?p] 1
      < 0 + (int (length [?e, ?x, ?p]) + 1) * timer_delay 1000"
    by (simp add: answered_at_def d)
  from getMpcSignWithTimeout_transport_error [OF j x others cover, of ?ties]
  have "outcome (getMpcSignWithTimeout js_eval ?ties 0 5000 1000 [?e, ?x, ?p])
      = Rejected (RequestError ''ECONNRESET'')"
    by simp
  moreover have "getMpcSignWithTimeout js_eval ?ties 0 5000 1000 [?e, ?x, ?p]
       = \<lparr>outcome = Rejected (RequestError ''ECONNRESET''), polled_at = [1000, 2000],
          settled_at = Some 2100\<rparr>"
    using e p by (simp add: run_defs getMpcSign_transport)
  ultimately show ?thesis
    using none at by simp
qed

section \<open>Properties of transaction submission\<close>

lemma excess_bits_small: "n < 9007199254740992 \<Longrightarrow> excess_bits n = 0"
  by (simp add: excess_bits.simps)

lemma to_number_exact: "n < 9007199254740992 \<Longrightarrow> to_number n = n"
  by (simp add: to_number_def excess_bits_small)

text \<open>Above \<open>2^53\<close> the number is the nearest double: \<open>2^53 + 1\<close> gwei reads as \<open>2^53\<close>.\<close>

lemma to_number_rounds:
  "to_number 9007199254740993 = 9007199254740992"
  "to_number 9007199254740995 = 9007199254740996"
  "to_number 18014398509481983 = 18014398509481984"
  by (simp_all add: to_number_def excess_bits.simps [of 9007199254740993]
      excess_bits.simps [of 9007199254740995] excess_bits.simps [of 18014398509481983]
      excess_bits_small)

lemma getGasPriceInGwei_rounds:
  "getGasPriceInGwei (s\<lparr>getGasPrice := Inr 9007199254740993000000000\<rparr>)
     = Inr 9007199254740992"
  by (simp add: getGasPriceInGwei_def to_number_rounds)

text \<open>
  C2 as stated fails on the code: with 50 gwei configured as \<open>minGasPriceInGwei\<close> and a
  network gas price of 10 gwei, both submission modes start the engine at 10 gwei
  (in wei), not at the configured 50.
\<close>

theorem starting_gas_price_counterexample:
  "submitTransactionWithYNATM report_start ynatm_toGwei example_tx example_signer
       example_config 1 default_hooks = ([GetGasPrice], Inr 10000000000)
   \<and> submitSignedTransactionWithYNATM report_start_signed ynatm_toGwei example_tx ()
       example_signer example_config 1 default_hooks = ([GetGasPrice], Inr 10000000000)
   \<and> ynatm_toGwei (minGasPriceInGwei example_config) = 50000000000"
  by (simp add: submitTransactionWithYNATM_def submitSignedTransactionWithYNATM_def
        calling_def getGasPriceInGwei_def to_number_exact example_signer_def
        example_config_def ynatm_send_options_def send_after_sign_options_def
        report_start_def report_start_signed_def ynatm_toGwei_def)

text \<open>
  C2, as the code has it. In both submission modes the starting gas price handed to the
  escalation engine is the network's gas price, fetched at call time, cut to whole gwei
  and read as a JavaScript number (then converted by the engine's \<open>toGwei\<close>): the whole
  gwei exactly when they are below \<open>2^53\<close>, the nearest double above (for a price of up
  to 20 digits of gwei). The configured \<open>minGasPriceInGwei\<close> is not consulted: changing
  it changes nothing, so no floor is applied.
\<close>

theorem starting_gas_price_is_network_price:
  "(getGasPrice s = Inr wei \<and> wei div 1000000000 < 100000000000000000000 \<longrightarrow>
      submitTransactionWithYNATM send toGwei tx s config n hooks =
        (case send (ynatm_send_options toGwei tx s config n hooks
                      (int (to_number (wei div 1000000000))))
         of (calls, res) \<Rightarrow> (GetGasPrice # calls, res))
      \<and> minGasPrice (ynatm_send_options toGwei tx s config n hooks
                        (int (to_number (wei div 1000000000))))
          = toGwei (int (to_number (wei div 1000000000)))
      \<and> submitSignedTransactionWithYNATM sendAfterSign toGwei tx sign s config n hooks =
        (case sendAfterSign (send_after_sign_options toGwei tx sign s config n hooks
                               (int (to_number (wei div 1000000000))))
         of (calls, res) \<Rightarrow> (GetGasPrice # calls, res))
      \<and> sas_minGasPrice (send_after_sign_options toGwei tx sign s config n hooks
                            (int (to_number (wei div 1000000000))))
          = toGwei (int (to_number (wei div 1000000000))))
   \<and> (wei div 1000000000 < 9007199254740992 \<longrightarrow>
        to_number (wei div 1000000000) = wei div 1000000000)
   \<and> submitTransactionWithYNATM send toGwei tx s (config\<lparr>minGasPriceInGwei := m\<rparr>) n hooks
       = submitTransactionWithYNATM send toGwei tx s config n hooks
   \<and> submitSignedTransactionWithYNATM sendAfterSign toGwei tx sign s
         (config\<lparr>minGasPriceInGwei := m\<rparr>) n hooks
       = submitSignedTransactionWithYNATM sendAfterSign toGwei tx sign s config n hooks"
  by (simp add: submitTransactionWithYNATM_def submitSignedTransactionWithYNATM_def
        calling_def getGasPriceInGwei_def ynatm_send_options_def send_after_sign_options_def
        to_number_exact)

theorem starting_gas_price_is_network_price_witness:
  "getGasPrice example_signer = Inr 10000000000
   \<and> (10000000000::nat) div 1000000000 < 9007199254740992
   \<and> to_number 10 = 10
   \<and> submitTransactionWithYNATM report_start ynatm_toGwei example_tx example_signer
       example_config 1 default_hooks = ([GetGasPrice], Inr (ynatm_toGwei 10))
   \<and> submitSignedTransactionWithYNATM report_start_signed ynatm_toGwei example_tx ()
       example_signer example_config 1 default_hooks = ([GetGasPrice], Inr (ynatm_toGwei 10))"
proof -
  have g: "getGasPrice example_signer = Inr 10000000000"
    by (simp add: example_signer_def)
  show ?thesis
    using starting_gas_price_is_network_price [of example_signer 10000000000 report_start
        ynatm_toGwei example_tx example_config 1 default_hooks report_start_signed "()" 50] g
    by (simp add: report_start_def report_start_signed_def to_number_exact
          ynatm_send_options_def send_after_sign_options_def)
qed

text \<open>
  C8. The facade delegates: \<open>submitTransaction\<close> and \<open>submitSignedTransaction\<close> call the
  corresponding resubmitter function with the signer, the \<open>ResubmissionConfig\<close> and the
  confirmation count fixed at construction, unchanged, and with the caller's hooks; when
  the caller gives no hooks, with hooks that do nothing on every argument.
\<close>

theorem facade_delegates:
  "submitTransaction send toGwei this tx None =
     submitTransactionWithYNATM send toGwei tx (submitter_signer this) (ynatmConfig this)
       (numConfirmations this) default_hooks
   \<and> submitTransaction send toGwei this tx (Some h) =
     submitTransactionWithYNATM send toGwei tx (submitter_signer this) (ynatmConfig this)
       (numConfirmations this) h
   \<and> submitSignedTransaction sendAfterSign toGwei this tx sign None =
     submitSignedTransactionWithYNATM sendAfterSign toGwei tx sign (submitter_signer this)
       (ynatmConfig this) (numConfirmations this) default_hooks
   \<and> submitSignedTransaction sendAfterSign toGwei this tx sign (Some h) =
     submitSignedTransactionWithYNATM sendAfterSign toGwei tx sign (submitter_signer this)
       (ynatmConfig this) (numConfirmations this) h
   \<and> beforeSendTransaction default_hooks t = None
   \<and> onTransactionResponse default_hooks r = None"
  by (simp add: submitTransaction_def submitSignedTransaction_def default_hooks_def)

lemma calling_calls:
  "fst (calling c r k) = c # (case r of Inl error \<Rightarrow> [] | Inr x \<Rightarrow> fst (k x))"
  by (simp add: calling_def split: sum.splits prod.splits)

text \<open>
  C10. In pre-signed mode the \<open>beforeSendTransaction\<close> hook is called with the original
  transaction, unchanged (no round's gas price is attached, and it is not the signed
  payload, which is what is then sent to the provider); in sign-per-attempt mode it is
  called with the transaction carrying that round's gas price, which is then sent by
  the signer. These are the send functions handed to the engines.
\<close>

theorem before_send_hook_argument:
  "take 1 (fst (sendSignedTxAndWaitForReceipt tx s n hooks signedTx))
      = [BeforeSendTransaction tx]
   \<and> take 1 (fst (sendTxAndWaitForReceipt tx s n hooks g))
      = [BeforeSendTransaction (tx\<lparr>gasPrice := Some g\<rparr>)]
   \<and> (beforeSendTransaction hooks tx = None \<longrightarrow>
        take 2 (fst (sendSignedTxAndWaitForReceipt tx s n hooks signedTx))
          = [BeforeSendTransaction tx, ProviderSendTransaction signedTx])
   \<and> (beforeSendTransaction hooks (tx\<lparr>gasPrice := Some g\<rparr>) = None \<longrightarrow>
        take 2 (fst (sendTxAndWaitForReceipt tx s n hooks g))
          = [BeforeSendTransaction (tx\<lparr>gasPrice := Some g\<rparr>),
             SignerSendTransaction (tx\<lparr>gasPrice := Some g\<rparr>)])
   \<and> sendSignedTransactionFunction
        (send_after_sign_options toGwei tx sign s config n hooks start)
      = sendSignedTxAndWaitForReceipt tx s n hooks
   \<and> sendTransactionFunction (ynatm_send_options toGwei tx s config n hooks start)
      = sendTxAndWaitForReceipt tx s n hooks"
  by (simp add: sendSignedTxAndWaitForReceipt_def sendTxAndWaitForReceipt_def Let_def
        calling_calls hook_result_def ynatm_send_options_def send_after_sign_options_def
        numeral_2_eq_2 split: sum.splits)

theorem before_send_hook_argument_witness:
  "beforeSendTransaction default_hooks example_tx = None
   \<and> beforeSendTransaction default_hooks (example_tx\<lparr>gasPrice := Some 7\<rparr>) = None
   \<and> take 2 (fst (sendSignedTxAndWaitForReceipt example_tx example_signer 1 default_hooks
                     ''0xf86b''))
       = [BeforeSendTransaction example_tx, ProviderSendTransaction ''0xf86b'']
   \<and> take 2 (fst (sendTxAndWaitForReceipt example_tx example_signer 1 default_hooks 7))
       = [BeforeSendTransaction (example_tx\<lparr>gasPrice := Some 7\<rparr>),
          SignerSendTransaction (example_tx\<lparr>gasPrice := Some 7\<rparr>)]
   \<and> gasPrice example_tx = None"
proof -
  have h1: "beforeSendTransaction default_hooks example_tx = None"
    and h2: "beforeSendTransaction default_hooks (example_tx\<lparr>gasPrice := Some 7\<rparr>) = None"
    by (simp_all add: default_hooks_def)
  from before_send_hook_argument [of example_tx example_signer 1 default_hooks "''0xf86b''" 7
      ynatm_toGwei "()" example_config 10]
    h1 h2
  have "take 2 (fst (sendSignedTxAndWaitForReceipt example_tx example_signer 1 default_hooks
                     ''0xf86b''))
       = [BeforeSendTransaction example_tx, ProviderSendTransaction ''0xf86b'']"
    and "take 2 (fst (sendTxAndWaitForReceipt example_tx example_signer 1 default_hooks 7))
       = [BeforeSendTransaction (example_tx\<lparr>gasPrice := Some 7\<rparr>),
          SignerSendTransaction (example_tx\<lparr>gasPrice := Some 7\<rparr>)]"
    by blast+
  moreover have "gasPrice example_tx = None" by (simp add: example_tx_def)
  ultimately show ?thesis using h1 h2 by blast
qed

end
